theory Spec2Isabelle
  imports Main
begin

section \<open>Cluster metadata manager (cluster\_metadata.go)\<close>

text \<open>
  The file \<^verbatim>\<open>cluster_metadata.go\<close> keeps the published view of the cluster topology in
  an \<^verbatim>\<open>atomic.Value\<close> holding a \<^verbatim>\<open>*ClusterMetadata\<close>. Every update works on a
  shallow copy and stores the copy. The model keeps the Go heap explicit: snapshot
  objects and Go maps live in two stores indexed by addresses, a pointer is an address,
  \<^verbatim>\<open>nil\<close> is \<open>None\<close>. A panic is an outcome of its own, returned together with the state
  the manager is left in when the panic is raised (a Go panic does not roll anything
  back, and the deferred \<^verbatim>\<open>m.mu.Unlock()\<close> makes the manager usable again if the panic
  is recovered).

  Every operation below is the body of its critical section, executed as a whole; the
  mutex \<^verbatim>\<open>mu\<close> that guards it is added in the last subsection.
\<close>

subsection \<open>Data of the collaborators\<close>

type_synonym token = int

text \<open>Go's \<^verbatim>\<open>error\<close> values are represented by their message.\<close>

type_synonym goerror = string

text \<open>A \<^verbatim>\<open>StdLogger\<close> interface value is the identity of the logger behind it.\<close>

type_synonym StdLogger = nat

text \<open>
  Modelled from the spec: \<^verbatim>\<open>HostInfo\<close> is declared outside \<^verbatim>\<open>cluster_metadata.go\<close>. A host
  descriptor has the connect address as its identity, and carries data centre, rack
  and owned tokens. Hosts are taken by value: this file never writes through a
  \<^verbatim>\<open>*HostInfo\<close>, and the pointers handed to it are taken to be non-nil.
\<close>

record HostInfo =
  connectAddress :: string
  dataCenter :: string
  rack :: string
  tokens :: "token list"

text \<open>
  Modelled from the spec: \<^verbatim>\<open>TokenRing\<close> is declared outside \<^verbatim>\<open>cluster_metadata.go\<close>. It is
  an immutable sequence of (token, owning host) pairs for one partitioner.
\<close>

datatype TokenRing = TokenRing (ringPartitioner: string) (ringTokens: "(token \<times> string) list")

text \<open>
  Modelled from the spec: \<^verbatim>\<open>tokenRingReplicas\<close>, the replica map of one keyspace, from a
  token to the ordered hosts (connect addresses) owning its replicas.
\<close>

type_synonym tokenRingReplicas = "(token \<times> string list) list"

text \<open>
  Modelled from the spec: \<^verbatim>\<open>KeyspaceMetadata\<close>, what the keyspace resolver returns, and
  the replication strategies \<^verbatim>\<open>getStrategy\<close> resolves it to.
\<close>

datatype KeyspaceMetadata =
  KsMeta (ksName: string) (strategyClass: string) (strategyOptions: "(string \<times> string) list")

datatype strategy = SimpleStrategy nat | NetworkTopologyStrategy "(string \<times> nat) list"

text \<open>
  The part of a \<^verbatim>\<open>*Session\<close> that \<^verbatim>\<open>init\<close> reads: the method \<^verbatim>\<open>KeyspaceMetadata\<close>, the
  configured keyspace \<^verbatim>\<open>cfg.Keyspace\<close> and the logger (an interface value, possibly nil).
\<close>

record Session =
  KeyspaceMetadata :: "string \<Rightarrow> goerror + KeyspaceMetadata"
  cfg_Keyspace :: string
  session_logger :: "StdLogger option"

text \<open>
  The functions that \<^verbatim>\<open>cluster_metadata.go\<close> calls and does not define are parameters of
  the model, collected in one record together with the sessions that exist (a
  \<^verbatim>\<open>*Session\<close> is an address into \<open>session\<close>). The record is an argument of every
  operation, so the answers of the collaborators may differ from one call to the next.
  \<^verbatim>\<open>getStrategy\<close> is taken as a function of the keyspace metadata alone.
\<close>

record env =
  session :: "nat \<Rightarrow> Session"
  newTokenRing :: "string \<Rightarrow> HostInfo list \<Rightarrow> goerror + TokenRing"
  getStrategy :: "KeyspaceMetadata \<Rightarrow> strategy option"
  replicaMap :: "strategy \<Rightarrow> TokenRing \<Rightarrow> tokenRingReplicas"

subsection \<open>The host registry\<close>

text \<open>
  Modelled from the spec: \<^verbatim>\<open>cowHostList\<close> (\<^verbatim>\<open>add\<close>, \<^verbatim>\<open>remove\<close>, \<^verbatim>\<open>get\<close>) is declared outside
  \<^verbatim>\<open>cluster_metadata.go\<close>. It is an ordered set of hosts, unique by connect address;
  \<^verbatim>\<open>add\<close> and \<^verbatim>\<open>remove\<close> return whether membership changed.
\<close>

type_synonym cowHostList = "HostInfo list"

definition cow_get :: "cowHostList \<Rightarrow> HostInfo list" where
  "cow_get c = c"

definition cow_add :: "cowHostList \<Rightarrow> HostInfo \<Rightarrow> bool \<times> cowHostList" where
  "cow_add c host =
     (if connectAddress host \<in> set (map connectAddress c) then (False, c)
      else (True, c @ [host]))"

definition cow_remove :: "cowHostList \<Rightarrow> string \<Rightarrow> bool \<times> cowHostList" where
  "cow_remove c addr =
     (if addr \<in> set (map connectAddress c)
      then (True, filter (\<lambda>h. connectAddress h \<noteq> addr) c)
      else (False, c))"

subsection \<open>Snapshots and the manager\<close>

text \<open>
  \<^verbatim>\<open>ClusterMetadata\<close>: \<open>replicas\<close> is a Go map, that is a reference into the store of
  maps (\<open>None\<close> is the nil map of a zero-valued struct); \<open>tokenRing\<close> is a
  \<^verbatim>\<open>*TokenRing\<close>.
\<close>

record ClusterMetadata =
  replicas :: "nat option"
  tokenRing :: "TokenRing option"

datatype panic =
    PanicSharedPolicy
  | PanicNilGetKeyspaceMetadata
  | PanicNilGetKeyspaceName
  | PanicNilLogger

datatype outcome = Ok | Panic panic

text \<open>
  The fields of \<^verbatim>\<open>clusterMetadataManager\<close> followed by the heap it works on.
  \<open>getKeyspaceMetadata\<close> and \<open>getKeyspaceName\<close> are function values: nil, or bound to
  the session they were taken from. \<open>metadata\<close> is the \<^verbatim>\<open>atomic.Value\<close>: nothing stored
  yet, or the address of the published snapshot. \<open>snapshots\<close> and \<open>replicaMaps\<close> are
  the stores of snapshot objects and of Go maps, \<open>snapNext\<close> and \<open>mapNext\<close> the next
  free address of each. \<open>printed\<close> is what has been printed through a logger.
\<close>

record manager =
  getKeyspaceMetadata :: "nat option"
  getKeyspaceName :: "nat option"
  hosts :: cowHostList
  partitioner :: string
  metadata :: "nat option"
  logger :: "StdLogger option"
  snapshots :: "nat \<Rightarrow> ClusterMetadata"
  snapNext :: nat
  replicaMaps :: "nat \<Rightarrow> (string \<rightharpoonup> tokenRingReplicas)"
  mapNext :: nat
  printed :: "(StdLogger \<times> string) list"

text \<open>A zero-valued \<^verbatim>\<open>clusterMetadataManager\<close> on an empty heap.\<close>

definition zeroMetadata :: ClusterMetadata where
  "zeroMetadata = \<lparr>replicas = None, tokenRing = None\<rparr>"

definition newManager :: manager where
  "newManager =
     \<lparr>getKeyspaceMetadata = None, getKeyspaceName = None, hosts = [], partitioner = [],
      metadata = None, logger = None,
      snapshots = (\<lambda>_. zeroMetadata), snapNext = 0,
      replicaMaps = (\<lambda>_. Map.empty), mapNext = 0, printed = []\<rparr>"

subsection \<open>Operations\<close>

text \<open>
  \<^verbatim>\<open>resetTokenRing\<close> (lines 30-47), on the snapshot at address \<open>meta\<close>. Calling
  \<^verbatim>\<open>Printf\<close> on a nil \<^verbatim>\<open>StdLogger\<close> panics.
\<close>

definition resetTokenRing ::
  "env \<Rightarrow> nat \<Rightarrow> string \<Rightarrow> HostInfo list \<Rightarrow> StdLogger option \<Rightarrow> manager \<Rightarrow> outcome \<times> manager" where
  "resetTokenRing e meta partitioner' hosts' logger' m =
     (if partitioner' = [] then (Ok, m)
      else case newTokenRing e partitioner' hosts' of
        Inl err \<Rightarrow>
          (case logger' of
             None \<Rightarrow> (Panic PanicNilLogger, m)
           | Some l \<Rightarrow>
               (Ok, m\<lparr>printed := printed m @
                  [(l, ''Unable to update the token ring due to error: '' @ err)]\<rparr>))
      | Inr ring \<Rightarrow>
          (Ok, m\<lparr>snapshots := (snapshots m)(meta := (snapshots m meta)\<lparr>tokenRing := Some ring\<rparr>)\<rparr>))"

text \<open>\<^verbatim>\<open>init\<close> (lines 64-75); \<open>s\<close> is the \<^verbatim>\<open>*Session\<close>, taken to be non-nil.\<close>

definition init :: "env \<Rightarrow> nat \<Rightarrow> manager \<Rightarrow> outcome \<times> manager" where
  "init e s m =
     (if getKeyspaceMetadata m \<noteq> None then (Panic PanicSharedPolicy, m)
      else (Ok, m\<lparr>getKeyspaceMetadata := Some s, getKeyspaceName := Some s,
                  logger := session_logger (session e s)\<rparr>))"

text \<open>\<^verbatim>\<open>getMetadataReadOnly\<close> (lines 136-142).\<close>

definition getMetadataReadOnly :: "manager \<Rightarrow> nat option" where
  "getMetadataReadOnly m = metadata m"

text \<open>
  \<^verbatim>\<open>getMetadataForUpdate\<close> (lines 144-155): \<^verbatim>\<open>new(ClusterMetadata)\<close> takes the next free
  address, and \<^verbatim>\<open>*meta = *metaReadOnly\<close> copies the two fields (the map reference, not
  the map).
\<close>

definition getMetadataForUpdate :: "manager \<Rightarrow> nat \<times> manager" where
  "getMetadataForUpdate m =
     (let metaReadOnly = getMetadataReadOnly m;
          meta = snapNext m;
          v = (case metaReadOnly of None \<Rightarrow> zeroMetadata | Some p \<Rightarrow> snapshots m p)
      in (meta, m\<lparr>snapshots := (snapshots m)(meta := v), snapNext := Suc meta\<rparr>))"

text \<open>
  The contents of the Go map behind a \<open>replicas\<close> field; a nil map reads as empty.
\<close>

definition mapContents :: "manager \<Rightarrow> nat option \<Rightarrow> (string \<rightharpoonup> tokenRingReplicas)" where
  "mapContents m r = (case r of None \<Rightarrow> Map.empty | Some a \<Rightarrow> replicaMaps m a)"

text \<open>
  \<^verbatim>\<open>updateReplicas\<close> (lines 157-180). \<^verbatim>\<open>make\<close> takes the next free map address. Calling
  the nil function \<^verbatim>\<open>m.getKeyspaceMetadata\<close> panics. \<open>meta\<close> is an address, so the test
  \<^verbatim>\<open>meta != nil\<close> of line 167 holds. The loop of lines 173-177 writes every entry of the
  old map whose key is not \<open>keyspace\<close>; the keys of a map are distinct, so the result
  does not depend on the order of iteration and is the old map without \<open>keyspace\<close>
  laid over the new one.
\<close>

definition updateReplicas :: "env \<Rightarrow> nat \<Rightarrow> string \<Rightarrow> manager \<Rightarrow> outcome \<times> manager" where
  "updateReplicas e meta keyspace m =
     (let newReplicas = mapNext m;
          m1 = m\<lparr>replicaMaps := (replicaMaps m)(newReplicas := Map.empty),
                 mapNext := Suc newReplicas\<rparr>
      in case getKeyspaceMetadata m1 of
           None \<Rightarrow> (Panic PanicNilGetKeyspaceMetadata, m1)
         | Some s \<Rightarrow>
             (let computed =
                    (case KeyspaceMetadata (session e s) keyspace of
                       Inl err \<Rightarrow> Map.empty
                     | Inr ks \<Rightarrow>
                         (case getStrategy e ks of
                            None \<Rightarrow> Map.empty
                          | Some strat \<Rightarrow>
                              (case tokenRing (snapshots m1 meta) of
                                 None \<Rightarrow> Map.empty
                               | Some ring \<Rightarrow> [keyspace \<mapsto> replicaMap e strat ring])));
                  old = mapContents m1 (replicas (snapshots m1 meta));
                  filled = computed ++ (old |` (- {keyspace}))
              in (Ok, m1\<lparr>replicaMaps := (replicaMaps m1)(newReplicas := filled),
                        snapshots := (snapshots m1)
                          (meta := (snapshots m1 meta)\<lparr>replicas := Some newReplicas\<rparr>)\<rparr>)))"

text \<open>\<^verbatim>\<open>keyspaceChanged\<close> (lines 77-83); the argument is \<^verbatim>\<open>update.Keyspace\<close>.\<close>

definition keyspaceChanged :: "env \<Rightarrow> string \<Rightarrow> manager \<Rightarrow> outcome \<times> manager" where
  "keyspaceChanged e keyspace m =
     (case getMetadataForUpdate m of
        (meta, m1) \<Rightarrow>
          (case updateReplicas e meta keyspace m1 of
             (Panic p, m2) \<Rightarrow> (Panic p, m2)
           | (Ok, m2) \<Rightarrow> (Ok, m2\<lparr>metadata := Some meta\<rparr>)))"

text \<open>
  The four statements that \<^verbatim>\<open>setPartitioner\<close> (lines 91-94), \<^verbatim>\<open>addHost\<close> (103-106),
  \<^verbatim>\<open>addHosts\<close> (118-121) and \<^verbatim>\<open>removeHost\<close> (129-132) share word for word. The argument
  \<^verbatim>\<open>m.getKeyspaceName()\<close> is evaluated before \<^verbatim>\<open>updateReplicas\<close> is entered, and calling
  the nil function panics there.
\<close>

definition rebuildAndStore :: "env \<Rightarrow> manager \<Rightarrow> outcome \<times> manager" where
  "rebuildAndStore e m =
     (case getMetadataForUpdate m of
        (meta, m1) \<Rightarrow>
          (case resetTokenRing e meta (partitioner m1) (cow_get (hosts m1)) (logger m1) m1 of
             (Panic p, m2) \<Rightarrow> (Panic p, m2)
           | (Ok, m2) \<Rightarrow>
               (case getKeyspaceName m2 of
                  None \<Rightarrow> (Panic PanicNilGetKeyspaceName, m2)
                | Some s \<Rightarrow>
                    (case updateReplicas e meta (cfg_Keyspace (session e s)) m2 of
                       (Panic p, m3) \<Rightarrow> (Panic p, m3)
                     | (Ok, m3) \<Rightarrow> (Ok, m3\<lparr>metadata := Some meta\<rparr>)))))"

text \<open>\<^verbatim>\<open>setPartitioner\<close> (lines 85-96).\<close>

definition setPartitioner :: "env \<Rightarrow> string \<Rightarrow> manager \<Rightarrow> outcome \<times> manager" where
  "setPartitioner e partitioner' m =
     (if partitioner m \<noteq> partitioner'
      then rebuildAndStore e (m\<lparr>partitioner := partitioner'\<rparr>)
      else (Ok, m))"

text \<open>\<^verbatim>\<open>addHost\<close> (lines 98-108).\<close>

definition addHost :: "env \<Rightarrow> HostInfo \<Rightarrow> manager \<Rightarrow> outcome \<times> manager" where
  "addHost e host m =
     (case cow_add (hosts m) host of
        (changed, c) \<Rightarrow>
          (if changed then rebuildAndStore e (m\<lparr>hosts := c\<rparr>) else (Ok, m\<lparr>hosts := c\<rparr>)))"

text \<open>The loop of \<^verbatim>\<open>addHosts\<close> (lines 114-116); the results of \<^verbatim>\<open>add\<close> are dropped.\<close>

fun addAll :: "cowHostList \<Rightarrow> HostInfo list \<Rightarrow> cowHostList" where
  "addAll c [] = c"
| "addAll c (host # rest) = addAll (snd (cow_add c host)) rest"

text \<open>\<^verbatim>\<open>addHosts\<close> (lines 110-122).\<close>

definition addHosts :: "env \<Rightarrow> HostInfo list \<Rightarrow> manager \<Rightarrow> outcome \<times> manager" where
  "addHosts e hs m = rebuildAndStore e (m\<lparr>hosts := addAll (hosts m) hs\<rparr>)"

text \<open>\<^verbatim>\<open>removeHost\<close> (lines 124-134).\<close>

definition removeHost :: "env \<Rightarrow> HostInfo \<Rightarrow> manager \<Rightarrow> outcome \<times> manager" where
  "removeHost e host m =
     (case cow_remove (hosts m) (connectAddress host) of
        (changed, c) \<Rightarrow>
          (if changed then rebuildAndStore e (m\<lparr>hosts := c\<rparr>) else (Ok, m\<lparr>hosts := c\<rparr>)))"

subsection \<open>Sequences of calls\<close>

datatype call =
    Init nat
  | KeyspaceChanged string
  | SetPartitioner string
  | AddHost HostInfo
  | AddHosts "HostInfo list"
  | RemoveHost HostInfo

fun step :: "env \<Rightarrow> call \<Rightarrow> manager \<Rightarrow> outcome \<times> manager" where
  "step e (Init s) m = init e s m"
| "step e (KeyspaceChanged ks) m = keyspaceChanged e ks m"
| "step e (SetPartitioner p) m = setPartitioner e p m"
| "step e (AddHost h) m = addHost e h m"
| "step e (AddHosts hs) m = addHosts e hs m"
| "step e (RemoveHost h) m = removeHost e h m"

text \<open>
  A sequence of calls, each made in the environment of its moment. A call that panics
  leaves the manager in the state reached at the panic, and the sequence goes on from
  there (the caller recovered); a program that dies at the panic is the prefix up to
  that call.
\<close>

fun run :: "manager \<Rightarrow> (env \<times> call) list \<Rightarrow> manager" where
  "run m [] = m"
| "run m ((e, c) # rest) = run (snd (step e c m)) rest"

text \<open>
  What a reader holding the snapshot reference \<open>p\<close> sees: the token ring and the
  contents of the replica map.
\<close>

definition observe :: "manager \<Rightarrow> nat \<Rightarrow> TokenRing option \<times> (string \<rightharpoonup> tokenRingReplicas)" where
  "observe m p = (tokenRing (snapshots m p), mapContents m (replicas (snapshots m p)))"

subsection \<open>The mutex\<close>

text \<open>
  Each of the six operations opens with \<^verbatim>\<open>m.mu.Lock()\<close> and \<^verbatim>\<open>defer m.mu.Unlock()\<close>
  (lines 65-66, 78-79, 86-87, 99-100, 111-112, 125-126); \<^verbatim>\<open>getMetadataReadOnly\<close>
  (lines 139-142) has neither. The state of the mutex is a flag beside the manager: held
  by another caller, or free. An operation called while the mutex is held does not
  return as long as it stays held (\<open>None\<close>); on a free mutex it runs its body and leaves
  the mutex free, also when the body panics. The read returns in both cases and leaves
  the flag and the manager as they are.
\<close>

definition callUnderMutex ::
  "env \<Rightarrow> call \<Rightarrow> bool \<times> manager \<Rightarrow> (outcome \<times> bool \<times> manager) option" where
  "callUnderMutex e c s =
     (case s of
        (held, m) \<Rightarrow>
          (if held then None
           else case step e c m of (r, m') \<Rightarrow> Some (r, False, m')))"

definition readUnderMutex :: "bool \<times> manager \<Rightarrow> (nat option \<times> bool \<times> manager) option" where
  "readUnderMutex s = Some (getMetadataReadOnly (snd s), s)"

subsection \<open>Notions used in the statements\<close>

text \<open>
  What a reader of the slot gets through \<^verbatim>\<open>getMetadataReadOnly\<close>: the token ring
  (\<^verbatim>\<open>TokenRing()\<close> of lines 26-28) and the replica mapping of the published snapshot.
  Before the first store there is no snapshot, hence no ring and no entry.
\<close>

definition currentRing :: "manager \<Rightarrow> TokenRing option" where
  "currentRing m =
     (case getMetadataReadOnly m of None \<Rightarrow> None | Some p \<Rightarrow> tokenRing (snapshots m p))"

definition currentReplicas :: "manager \<Rightarrow> (string \<rightharpoonup> tokenRingReplicas)" where
  "currentReplicas m =
     (case getMetadataReadOnly m of
        None \<Rightarrow> Map.empty
      | Some p \<Rightarrow> mapContents m (replicas (snapshots m p)))"

text \<open>
  The heap up to the addresses allocated in \<open>m\<close> is the same in \<open>m'\<close>: no object that
  exists in \<open>m\<close> has been written.
\<close>

definition unchangedBelow :: "manager \<Rightarrow> manager \<Rightarrow> bool" where
  "unchangedBelow m m' =
     (snapNext m \<le> snapNext m' \<and> mapNext m \<le> mapNext m' \<and>
      (\<forall>p<snapNext m. snapshots m' p = snapshots m p) \<and>
      (\<forall>a<mapNext m. replicaMaps m' a = replicaMaps m a))"

text \<open>
  References point to allocated objects: what \<^verbatim>\<open>new\<close> and \<^verbatim>\<open>make\<close> return next is not
  yet referenced. Every state reached from \<open>newManager\<close> is of this kind.
\<close>

definition wellFormed :: "manager \<Rightarrow> bool" where
  "wellFormed m =
     ((case metadata m of None \<Rightarrow> True | Some p \<Rightarrow> p < snapNext m) \<and>
      (\<forall>p\<in>{..<snapNext m}.
         case replicas (snapshots m p) of None \<Rightarrow> True | Some a \<Rightarrow> a < mapNext m))"

text \<open>
  The entry that lines 163-171 compute for keyspace \<open>ks\<close> from the ring of the working
  snapshot, with the resolver bound to session \<open>s\<close>: none when the resolver returns an
  error, when there is no strategy, or when there is no ring.
\<close>

definition recomputed :: "env \<Rightarrow> nat \<Rightarrow> string \<Rightarrow> TokenRing option \<Rightarrow> tokenRingReplicas option" where
  "recomputed e s ks ring =
     (case KeyspaceMetadata (session e s) ks of
        Inl err \<Rightarrow> None
      | Inr k \<Rightarrow>
          (case getStrategy e k of
             None \<Rightarrow> None
           | Some strat \<Rightarrow> map_option (replicaMap e strat) ring))"

text \<open>The resolver returns an error for \<open>ks\<close>, or \<^verbatim>\<open>getStrategy\<close> yields no strategy.\<close>

definition resolutionFails :: "env \<Rightarrow> nat \<Rightarrow> string \<Rightarrow> bool" where
  "resolutionFails e s ks =
     (case KeyspaceMetadata (session e s) ks of
        Inl err \<Rightarrow> True
      | Inr k \<Rightarrow> getStrategy e k = None)"

text \<open>
  The ring a working snapshot carries after \<^verbatim>\<open>resetTokenRing\<close>, when it carried \<open>prev\<close>
  before and the manager holds the partitioner and hosts of \<open>m\<close>.
\<close>

definition ringAfterReset :: "env \<Rightarrow> manager \<Rightarrow> TokenRing option \<Rightarrow> TokenRing option" where
  "ringAfterReset e m prev =
     (if partitioner m = [] then prev
      else case newTokenRing e (partitioner m) (cow_get (hosts m)) of
             Inl err \<Rightarrow> prev
           | Inr ring \<Rightarrow> Some ring)"

text \<open>
  The guard each operation puts before its rebuild: none for \<^verbatim>\<open>keyspaceChanged\<close> and
  \<^verbatim>\<open>addHosts\<close>, a changed partitioner (line 89), a changed membership (lines 102, 128).
  \<^verbatim>\<open>init\<close> never rebuilds.
\<close>

fun passesGuard :: "call \<Rightarrow> manager \<Rightarrow> bool" where
  "passesGuard (Init s) m = False"
| "passesGuard (KeyspaceChanged ks) m = True"
| "passesGuard (SetPartitioner p) m = (partitioner m \<noteq> p)"
| "passesGuard (AddHost h) m = fst (cow_add (hosts m) h)"
| "passesGuard (AddHosts hs) m = True"
| "passesGuard (RemoveHost h) m = fst (cow_remove (hosts m) (connectAddress h))"

text \<open>
  The keyspace a call hands to \<^verbatim>\<open>updateReplicas\<close>: the keyspace of the event, or what
  \<^verbatim>\<open>m.getKeyspaceName()\<close> returns (nothing when that function is nil).
\<close>

fun targetKeyspace :: "env \<Rightarrow> call \<Rightarrow> manager \<Rightarrow> string option" where
  "targetKeyspace e (Init s) m = None"
| "targetKeyspace e (KeyspaceChanged ks) m = Some ks"
| "targetKeyspace e c m = map_option (\<lambda>s. cfg_Keyspace (session e s)) (getKeyspaceName m)"

fun isKeyspaceChanged :: "call \<Rightarrow> bool" where
  "isKeyspaceChanged (KeyspaceChanged ks) = True"
| "isKeyspaceChanged c = False"

text \<open>
  Some call of the sequence, started in \<open>m\<close>, passed its guard and returned without a
  panic, that is, reached \<^verbatim>\<open>m.metadata.Store(meta)\<close>.
\<close>

fun stored :: "manager \<Rightarrow> (env \<times> call) list \<Rightarrow> bool" where
  "stored m [] = False"
| "stored m ((e, c) # rest) =
     ((passesGuard c m \<and> fst (step e c m) = Ok) \<or> stored (snd (step e c m)) rest)"

text \<open>\<open>m0\<close> is \<open>m\<close> with another host registry and partitioner.\<close>

definition sameButRegistry :: "manager \<Rightarrow> manager \<Rightarrow> bool" where
  "sameButRegistry m m0 = (m0 = m\<lparr>hosts := hosts m0, partitioner := partitioner m0\<rparr>)"

subsection \<open>A small cluster\<close>

text \<open>
  Concrete collaborators on which the theorems below are exercised: a session that knows
  the keyspaces \<open>ks1\<close> and \<open>ks2\<close>, a ring builder that knows one partitioner and
  needs at least one token, one strategy, and two hosts.
\<close>

definition exampleSession :: Session where
  "exampleSession =
     \<lparr>KeyspaceMetadata =
        (\<lambda>ks. if ks = ''ks1'' \<or> ks = ''ks2'' then Inr (KsMeta ks ''SimpleStrategy'' [])
              else Inl ''keyspace does not exist''),
      cfg_Keyspace = ''ks1'',
      session_logger = Some 7\<rparr>"

definition exampleEnv :: env where
  "exampleEnv =
     \<lparr>session = (\<lambda>_. exampleSession),
      newTokenRing =
        (\<lambda>p hs. if p \<noteq> ''Murmur3'' then Inl ''unsupported partitioner''
                 else if concat (map tokens hs) = [] then Inl ''no tokens''
                 else Inr (TokenRing p
                   (concat (map (\<lambda>h. map (\<lambda>t. (t, connectAddress h)) (tokens h)) hs)))),
      getStrategy =
        (\<lambda>ks. if strategyClass ks = ''SimpleStrategy'' then Some (SimpleStrategy 1) else None),
      replicaMap = (\<lambda>st ring. map (\<lambda>(t, h). (t, [h])) (ringTokens ring))\<rparr>"

text \<open>The same cluster at a moment when the resolver fails for every keyspace.\<close>

definition failingEnv :: env where
  "failingEnv =
     exampleEnv\<lparr>session :=
       (\<lambda>_. exampleSession\<lparr>KeyspaceMetadata := (\<lambda>ks. Inl ''no connection'')\<rparr>)\<rparr>"

definition hostA :: HostInfo where
  "hostA = \<lparr>connectAddress = ''10.0.0.1'', dataCenter = ''dc1'', rack = ''r1'', tokens = [0]\<rparr>"

definition hostB :: HostInfo where
  "hostB = \<lparr>connectAddress = ''10.0.0.2'', dataCenter = ''dc1'', rack = ''r1'', tokens = [50]\<rparr>"

text \<open>
  A manager that has been initialised, told the partitioner and one host, and a keyspace
  event for \<open>ks2\<close>: its published snapshot has a ring and entries for \<open>ks1\<close> and \<open>ks2\<close>.
\<close>

definition warmUp :: "(env \<times> call) list" where
  "warmUp =
     [(exampleEnv, Init 0), (exampleEnv, SetPartitioner ''Murmur3''),
      (exampleEnv, AddHost hostA), (exampleEnv, KeyspaceChanged ''ks2'')]"

definition exampleManager :: manager where
  "exampleManager = run newManager warmUp"

text \<open>Calls made after \<open>warmUp\<close>: a second host, a keyspace event while the resolver
  fails, and the removal of the first host.\<close>

definition laterCalls :: "(env \<times> call) list" where
  "laterCalls =
     [(exampleEnv, AddHost hostB), (failingEnv, KeyspaceChanged ''ks1''),
      (exampleEnv, RemoveHost hostA)]"

text \<open>The same cluster at a moment when no token ring can be built.\<close>

definition noRingEnv :: env where
  "noRingEnv = exampleEnv\<lparr>newTokenRing := (\<lambda>p hs. Inl ''no tokens'')\<rparr>"

text \<open>
  A manager that knows the partitioner and \<open>hostA\<close> but has published no ring: the host
  arrived at a moment when the ring could not be built.
\<close>

definition staleManager :: manager where
  "staleManager =
     run newManager
       [(exampleEnv, Init 0), (exampleEnv, SetPartitioner ''Murmur3''),
        (noRingEnv, AddHost hostA)]"

subsection \<open>The heap is only extended\<close>

lemma wellFormed_iff:
  "wellFormed m \<longleftrightarrow>
     (\<forall>p. metadata m = Some p \<longrightarrow> p < snapNext m) \<and>
     (\<forall>p<snapNext m. \<forall>a. replicas (snapshots m p) = Some a \<longrightarrow> a < mapNext m)"
  by (auto simp: wellFormed_def split: option.splits)

lemma unchangedBelow_refl: "unchangedBelow m m"
  by (simp add: unchangedBelow_def)

lemma unchangedBelow_trans:
  "unchangedBelow m m' \<Longrightarrow> unchangedBelow m' m'' \<Longrightarrow> unchangedBelow m m''"
  by (auto simp: unchangedBelow_def)

lemma unchangedBelow_rebuildAndStore: "unchangedBelow m (snd (rebuildAndStore e m))"
  by (auto simp: unchangedBelow_def rebuildAndStore_def getMetadataForUpdate_def
      resetTokenRing_def updateReplicas_def Let_def
      split: option.splits sum.splits prod.splits outcome.splits if_splits)

lemma unchangedBelow_keyspaceChanged: "unchangedBelow m (snd (keyspaceChanged e ks m))"
  by (auto simp: unchangedBelow_def keyspaceChanged_def getMetadataForUpdate_def
      updateReplicas_def Let_def
      split: option.splits sum.splits prod.splits outcome.splits if_splits)

lemma wellFormed_rebuildAndStore: "wellFormed m \<Longrightarrow> wellFormed (snd (rebuildAndStore e m))"
  by (auto simp: wellFormed_iff rebuildAndStore_def getMetadataForUpdate_def
      resetTokenRing_def updateReplicas_def Let_def zeroMetadata_def less_Suc_eq getMetadataReadOnly_def
      split: option.splits sum.splits prod.splits outcome.splits if_splits)

lemma wellFormed_keyspaceChanged: "wellFormed m \<Longrightarrow> wellFormed (snd (keyspaceChanged e ks m))"
  by (auto simp: wellFormed_iff keyspaceChanged_def getMetadataForUpdate_def
      updateReplicas_def Let_def zeroMetadata_def less_Suc_eq getMetadataReadOnly_def
      split: option.splits sum.splits prod.splits outcome.splits if_splits)

lemma unchangedBelow_step: "unchangedBelow m (snd (step e c m))"
proof (cases c)
  case (Init s)
  then show ?thesis by (simp add: init_def unchangedBelow_def)
next
  case (KeyspaceChanged ks)
  then show ?thesis by (simp add: unchangedBelow_keyspaceChanged)
next
  case (SetPartitioner p)
  have "unchangedBelow (m\<lparr>partitioner := p\<rparr>) (snd (rebuildAndStore e (m\<lparr>partitioner := p\<rparr>)))"
    by (rule unchangedBelow_rebuildAndStore)
  then show ?thesis using SetPartitioner
    by (simp add: setPartitioner_def unchangedBelow_def)
next
  case (AddHost h)
  have "unchangedBelow (m\<lparr>hosts := c'\<rparr>) (snd (rebuildAndStore e (m\<lparr>hosts := c'\<rparr>)))" for c'
    by (rule unchangedBelow_rebuildAndStore)
  then show ?thesis using AddHost
    by (simp add: addHost_def unchangedBelow_def split: prod.splits)
next
  case (AddHosts hs)
  have "unchangedBelow (m\<lparr>hosts := c'\<rparr>) (snd (rebuildAndStore e (m\<lparr>hosts := c'\<rparr>)))" for c'
    by (rule unchangedBelow_rebuildAndStore)
  then show ?thesis using AddHosts
    by (simp add: addHosts_def unchangedBelow_def)
next
  case (RemoveHost h)
  have "unchangedBelow (m\<lparr>hosts := c'\<rparr>) (snd (rebuildAndStore e (m\<lparr>hosts := c'\<rparr>)))" for c'
    by (rule unchangedBelow_rebuildAndStore)
  then show ?thesis using RemoveHost
    by (simp add: removeHost_def unchangedBelow_def split: prod.splits)
qed

lemma wellFormed_step: "wellFormed m \<Longrightarrow> wellFormed (snd (step e c m))"
proof (cases c)
  case (Init s)
  assume "wellFormed m"
  then show ?thesis using Init by (simp add: init_def wellFormed_iff)
next
  case (KeyspaceChanged ks)
  assume "wellFormed m"
  then show ?thesis using KeyspaceChanged by (simp add: wellFormed_keyspaceChanged)
next
  case (SetPartitioner p)
  assume "wellFormed m"
  then have "wellFormed (m\<lparr>partitioner := p\<rparr>)" by (simp add: wellFormed_iff)
  then have "wellFormed (snd (rebuildAndStore e (m\<lparr>partitioner := p\<rparr>)))"
    by (rule wellFormed_rebuildAndStore)
  then show ?thesis using SetPartitioner \<open>wellFormed m\<close>
    by (simp add: setPartitioner_def)
next
  case (AddHost h)
  assume wf: "wellFormed m"
  have "wellFormed (snd (rebuildAndStore e (m\<lparr>hosts := c'\<rparr>)))" for c'
    using wf by (intro wellFormed_rebuildAndStore) (simp add: wellFormed_iff)
  moreover have "wellFormed (m\<lparr>hosts := c'\<rparr>)" for c'
    using wf by (simp add: wellFormed_iff)
  ultimately show ?thesis using AddHost
    by (simp add: addHost_def split: prod.splits)
next
  case (AddHosts hs)
  assume wf: "wellFormed m"
  have "wellFormed (snd (rebuildAndStore e (m\<lparr>hosts := c'\<rparr>)))" for c'
    using wf by (intro wellFormed_rebuildAndStore) (simp add: wellFormed_iff)
  then show ?thesis using AddHosts by (simp add: addHosts_def)
next
  case (RemoveHost h)
  assume wf: "wellFormed m"
  have "wellFormed (snd (rebuildAndStore e (m\<lparr>hosts := c'\<rparr>)))" for c'
    using wf by (intro wellFormed_rebuildAndStore) (simp add: wellFormed_iff)
  moreover have "wellFormed (m\<lparr>hosts := c'\<rparr>)" for c'
    using wf by (simp add: wellFormed_iff)
  ultimately show ?thesis using RemoveHost
    by (simp add: removeHost_def split: prod.splits)
qed

lemma run_append: "run m (xs @ ys) = run (run m xs) ys"
  by (induction xs arbitrary: m) auto

lemma unchangedBelow_run: "unchangedBelow m (run m xs)"
proof (induction xs arbitrary: m)
  case Nil
  show ?case by (simp add: unchangedBelow_refl)
next
  case (Cons x xs)
  obtain e c where x: "x = (e, c)" by (cases x)
  have "unchangedBelow m (snd (step e c m))" by (rule unchangedBelow_step)
  moreover have "unchangedBelow (snd (step e c m)) (run (snd (step e c m)) xs)"
    by (rule Cons.IH)
  ultimately show ?case using x by (auto intro: unchangedBelow_trans)
qed

lemma wellFormed_run: "wellFormed m \<Longrightarrow> wellFormed (run m xs)"
proof (induction xs arbitrary: m)
  case Nil
  then show ?case by simp
next
  case (Cons x xs)
  obtain e c where x: "x = (e, c)" by (cases x)
  from Cons.prems have "wellFormed (snd (step e c m))" by (rule wellFormed_step)
  then have "wellFormed (run (snd (step e c m)) xs)" by (rule Cons.IH)
  then show ?case using x by simp
qed

lemma wellFormed_newManager: "wellFormed newManager"
  by (simp add: wellFormed_iff newManager_def)

lemma observe_unchanged:
  assumes wf: "wellFormed m" and p: "p < snapNext m" and u: "unchangedBelow m m'"
  shows "snapshots m' p = snapshots m p \<and> observe m' p = observe m p"
proof -
  from u p have s: "snapshots m' p = snapshots m p" by (simp add: unchangedBelow_def)
  have "mapContents m' (replicas (snapshots m p)) = mapContents m (replicas (snapshots m p))"
  proof (cases "replicas (snapshots m p)")
    case None
    then show ?thesis by (simp add: mapContents_def)
  next
    case (Some a)
    with wf p have "a < mapNext m" by (simp add: wellFormed_iff)
    with u have "replicaMaps m' a = replicaMaps m a" by (simp add: unchangedBelow_def)
    with Some show ?thesis by (simp add: mapContents_def)
  qed
  with s show ?thesis by (simp add: observe_def)
qed

lemma keyspaceChanged_publishes:
  assumes wf: "wellFormed m" and gkm: "getKeyspaceMetadata m = Some s"
  shows "fst (keyspaceChanged e ks m) = Ok"
    and "getMetadataReadOnly (snd (keyspaceChanged e ks m)) = Some (snapNext m)"
    and "snapNext (snd (keyspaceChanged e ks m)) = Suc (snapNext m)"
    and "currentRing (snd (keyspaceChanged e ks m)) = currentRing m"
    and "currentReplicas (snd (keyspaceChanged e ks m)) =
           (currentReplicas m)(ks := recomputed e s ks (currentRing m))"
    and "printed (snd (keyspaceChanged e ks m)) = printed m"
    and "hosts (snd (keyspaceChanged e ks m)) = hosts m"
    and "partitioner (snd (keyspaceChanged e ks m)) = partitioner m"
  using assms
  by (auto simp: keyspaceChanged_def getMetadataForUpdate_def updateReplicas_def Let_def
      getMetadataReadOnly_def currentRing_def currentReplicas_def recomputed_def
      mapContents_def zeroMetadata_def wellFormed_iff fun_eq_iff map_add_def restrict_map_def
      split: option.splits sum.splits)

lemma rebuildAndStore_publishes:
  assumes wf: "wellFormed m" and gkm: "getKeyspaceMetadata m = Some s"
    and gkn: "getKeyspaceName m = Some s'"
    and nolog: "fst (rebuildAndStore e m) \<noteq> Panic PanicNilLogger"
  shows "fst (rebuildAndStore e m) = Ok"
    and "getMetadataReadOnly (snd (rebuildAndStore e m)) = Some (snapNext m)"
    and "snapNext (snd (rebuildAndStore e m)) = Suc (snapNext m)"
    and "currentRing (snd (rebuildAndStore e m)) = ringAfterReset e m (currentRing m)"
    and "currentReplicas (snd (rebuildAndStore e m)) =
           (currentReplicas m)(cfg_Keyspace (session e s') :=
              recomputed e s (cfg_Keyspace (session e s')) (ringAfterReset e m (currentRing m)))"
    and "hosts (snd (rebuildAndStore e m)) = hosts m"
    and "partitioner (snd (rebuildAndStore e m)) = partitioner m"
  using assms
  by (auto simp: rebuildAndStore_def getMetadataForUpdate_def updateReplicas_def Let_def
      resetTokenRing_def ringAfterReset_def
      getMetadataReadOnly_def currentRing_def currentReplicas_def recomputed_def
      mapContents_def zeroMetadata_def wellFormed_iff fun_eq_iff map_add_def restrict_map_def
      split: option.splits sum.splits if_splits)


lemma rebuildAndStore_printed:
  assumes "getKeyspaceMetadata m = Some s" and "getKeyspaceName m = Some s'"
    and "logger m = Some l"
  shows "printed (snd (rebuildAndStore e m)) =
           (if partitioner m = [] then printed m
            else case newTokenRing e (partitioner m) (cow_get (hosts m)) of
                   Inl err \<Rightarrow> printed m @
                     [(l, ''Unable to update the token ring due to error: '' @ err)]
                 | Inr ring \<Rightarrow> printed m)"
  using assms
  by (auto simp: rebuildAndStore_def getMetadataForUpdate_def updateReplicas_def Let_def
      resetTokenRing_def split: option.splits sum.splits)

lemma rebuildAndStore_logger_no_panic:
  "logger m = Some l \<Longrightarrow> fst (rebuildAndStore e m) \<noteq> Panic PanicNilLogger"
  by (auto simp: rebuildAndStore_def getMetadataForUpdate_def updateReplicas_def Let_def
      resetTokenRing_def split: option.splits sum.splits)

lemma sameButRegistry_fields:
  assumes "sameButRegistry m m0"
  shows "wellFormed m0 = wellFormed m" and "currentRing m0 = currentRing m"
    and "currentReplicas m0 = currentReplicas m"
    and "getKeyspaceMetadata m0 = getKeyspaceMetadata m"
    and "getKeyspaceName m0 = getKeyspaceName m"
    and "snapNext m0 = snapNext m" and "logger m0 = logger m" and "printed m0 = printed m"
    and "getMetadataReadOnly m0 = getMetadataReadOnly m"
proof -
  from assms have eq: "m0 = m\<lparr>hosts := hosts m0, partitioner := partitioner m0\<rparr>"
    by (simp add: sameButRegistry_def)
  show "wellFormed m0 = wellFormed m"
    by (subst eq) (simp add: wellFormed_iff)
  show "currentRing m0 = currentRing m"
    by (subst eq) (simp add: currentRing_def getMetadataReadOnly_def split: option.splits)
  show "currentReplicas m0 = currentReplicas m"
    by (subst eq)
      (simp add: currentReplicas_def getMetadataReadOnly_def mapContents_def split: option.splits)
  show "getKeyspaceMetadata m0 = getKeyspaceMetadata m" by (subst eq) simp
  show "getKeyspaceName m0 = getKeyspaceName m" by (subst eq) simp
  show "snapNext m0 = snapNext m" by (subst eq) simp
  show "logger m0 = logger m" by (subst eq) simp
  show "printed m0 = printed m" by (subst eq) simp
  show "getMetadataReadOnly m0 = getMetadataReadOnly m"
    by (subst eq) (simp add: getMetadataReadOnly_def)
qed

lemma step_is_rebuild:
  assumes "passesGuard c m" and "\<not> isKeyspaceChanged c"
  shows "\<exists>m0. sameButRegistry m m0 \<and> step e c m = rebuildAndStore e m0"
proof (cases c)
  case (Init s)
  with assms show ?thesis by simp
next
  case (KeyspaceChanged ks)
  with assms show ?thesis by simp
next
  case (SetPartitioner p)
  with assms have "step e c m = rebuildAndStore e (m\<lparr>partitioner := p\<rparr>)"
    by (simp add: setPartitioner_def)
  moreover have "sameButRegistry m (m\<lparr>partitioner := p\<rparr>)"
    by (simp add: sameButRegistry_def)
  ultimately show ?thesis by blast
next
  case (AddHost h)
  with assms have "step e c m = rebuildAndStore e (m\<lparr>hosts := snd (cow_add (hosts m) h)\<rparr>)"
    by (cases "cow_add (hosts m) h") (simp add: addHost_def)
  moreover have "sameButRegistry m (m\<lparr>hosts := snd (cow_add (hosts m) h)\<rparr>)"
    by (simp add: sameButRegistry_def)
  ultimately show ?thesis by blast
next
  case (AddHosts hs)
  then have "step e c m = rebuildAndStore e (m\<lparr>hosts := addAll (hosts m) hs\<rparr>)"
    by (simp add: addHosts_def)
  moreover have "sameButRegistry m (m\<lparr>hosts := addAll (hosts m) hs\<rparr>)"
    by (simp add: sameButRegistry_def)
  ultimately show ?thesis by blast
next
  case (RemoveHost h)
  with assms have "step e c m =
      rebuildAndStore e (m\<lparr>hosts := snd (cow_remove (hosts m) (connectAddress h))\<rparr>)"
    by (cases "cow_remove (hosts m) (connectAddress h)") (simp add: removeHost_def)
  moreover have
    "sameButRegistry m (m\<lparr>hosts := snd (cow_remove (hosts m) (connectAddress h))\<rparr>)"
    by (simp add: sameButRegistry_def)
  ultimately show ?thesis by blast
qed

lemma ringAfterReset_cong:
  "partitioner a = partitioner b \<Longrightarrow> hosts a = hosts b \<Longrightarrow>
   ringAfterReset e a prev = ringAfterReset e b prev"
  by (simp add: ringAfterReset_def)

lemma targetKeyspace_rebuild:
  "\<not> isKeyspaceChanged c \<Longrightarrow> targetKeyspace e c m = Some ks \<Longrightarrow>
   \<exists>s'. getKeyspaceName m = Some s' \<and> ks = cfg_Keyspace (session e s')"
  by (cases c) auto

lemma step_publishes:
  assumes wf: "wellFormed m" and gkm: "getKeyspaceMetadata m = Some s"
    and tk: "targetKeyspace e c m = Some ks"
    and guard: "passesGuard c m"
    and nolog: "fst (step e c m) \<noteq> Panic PanicNilLogger"
  shows "fst (step e c m) = Ok"
    and "getMetadataReadOnly (snd (step e c m)) = Some (snapNext m)"
    and "snapNext (snd (step e c m)) = Suc (snapNext m)"
    and "currentRing (snd (step e c m)) =
           (if isKeyspaceChanged c then currentRing m
            else ringAfterReset e (snd (step e c m)) (currentRing m))"
    and "currentReplicas (snd (step e c m)) =
           (currentReplicas m)(ks := recomputed e s ks (currentRing (snd (step e c m))))"
proof -
  have "fst (step e c m) = Ok \<and>
        getMetadataReadOnly (snd (step e c m)) = Some (snapNext m) \<and>
        snapNext (snd (step e c m)) = Suc (snapNext m) \<and>
        currentRing (snd (step e c m)) =
           (if isKeyspaceChanged c then currentRing m
            else ringAfterReset e (snd (step e c m)) (currentRing m)) \<and>
        currentReplicas (snd (step e c m)) =
           (currentReplicas m)(ks := recomputed e s ks (currentRing (snd (step e c m))))"
  proof (cases "isKeyspaceChanged c")
    case True
    then obtain k where c: "c = KeyspaceChanged k" by (cases c) auto
    with tk have k: "k = ks" by simp
    from keyspaceChanged_publishes [OF wf gkm, of e ks] c k show ?thesis by simp
  next
    case False
    from step_is_rebuild [OF guard False, of e] obtain m0
      where same: "sameButRegistry m m0" and st: "step e c m = rebuildAndStore e m0" by blast
    from targetKeyspace_rebuild [OF False tk] obtain s'
      where gkn: "getKeyspaceName m = Some s'" and ks: "ks = cfg_Keyspace (session e s')"
      by blast
    note f = sameButRegistry_fields [OF same]
    have wf0: "wellFormed m0" using wf f by simp
    have gkm0: "getKeyspaceMetadata m0 = Some s" using gkm f by simp
    have gkn0: "getKeyspaceName m0 = Some s'" using gkn f by simp
    have nolog0: "fst (rebuildAndStore e m0) \<noteq> Panic PanicNilLogger" using nolog st by simp
    note r = rebuildAndStore_publishes [OF wf0 gkm0 gkn0 nolog0]
    have ring: "ringAfterReset e (snd (rebuildAndStore e m0)) (currentRing m) =
          ringAfterReset e m0 (currentRing m)"
      by (rule ringAfterReset_cong) (simp_all add: r)
    show ?thesis using False r ring by (simp add: st f ks)
  qed
  then show "fst (step e c m) = Ok"
    and "getMetadataReadOnly (snd (step e c m)) = Some (snapNext m)"
    and "snapNext (snd (step e c m)) = Suc (snapNext m)"
    and "currentRing (snd (step e c m)) =
           (if isKeyspaceChanged c then currentRing m
            else ringAfterReset e (snd (step e c m)) (currentRing m))"
    and "currentReplicas (snd (step e c m)) =
           (currentReplicas m)(ks := recomputed e s ks (currentRing (snd (step e c m))))"
    by simp_all
qed

subsection \<open>Fields that the rebuild leaves alone\<close>

lemma rebuildAndStore_bindings:
  "getKeyspaceMetadata (snd (rebuildAndStore e m)) = getKeyspaceMetadata m"
  "getKeyspaceName (snd (rebuildAndStore e m)) = getKeyspaceName m"
  "logger (snd (rebuildAndStore e m)) = logger m"
  "hosts (snd (rebuildAndStore e m)) = hosts m"
  "partitioner (snd (rebuildAndStore e m)) = partitioner m"
  by (auto simp: rebuildAndStore_def getMetadataForUpdate_def updateReplicas_def Let_def
      resetTokenRing_def split: option.splits sum.splits)

lemma keyspaceChanged_bindings:
  "getKeyspaceMetadata (snd (keyspaceChanged e ks m)) = getKeyspaceMetadata m"
  "getKeyspaceName (snd (keyspaceChanged e ks m)) = getKeyspaceName m"
  "logger (snd (keyspaceChanged e ks m)) = logger m"
  "hosts (snd (keyspaceChanged e ks m)) = hosts m"
  "partitioner (snd (keyspaceChanged e ks m)) = partitioner m"
  by (auto simp: keyspaceChanged_def getMetadataForUpdate_def updateReplicas_def Let_def
      split: option.splits sum.splits)

lemma step_bindings:
  assumes "getKeyspaceMetadata m = Some s"
  shows "getKeyspaceMetadata (snd (step e c m)) = getKeyspaceMetadata m \<and>
         getKeyspaceName (snd (step e c m)) = getKeyspaceName m \<and>
         logger (snd (step e c m)) = logger m"
proof (cases c)
  case (Init s')
  with assms show ?thesis by (simp add: init_def)
next
  case (KeyspaceChanged ks)
  then show ?thesis by (simp add: keyspaceChanged_bindings)
next
  case (SetPartitioner p)
  then show ?thesis by (simp add: setPartitioner_def rebuildAndStore_bindings)
next
  case (AddHost h)
  then show ?thesis
    by (cases "cow_add (hosts m) h") (simp add: addHost_def rebuildAndStore_bindings)
next
  case (AddHosts hs)
  then show ?thesis by (simp add: addHosts_def rebuildAndStore_bindings)
next
  case (RemoveHost h)
  then show ?thesis
    by (cases "cow_remove (hosts m) (connectAddress h)")
      (simp add: removeHost_def rebuildAndStore_bindings)
qed

lemma run_bindings:
  "getKeyspaceMetadata m = Some s \<Longrightarrow>
   getKeyspaceMetadata (run m xs) = Some s \<and> getKeyspaceName (run m xs) = getKeyspaceName m \<and>
   logger (run m xs) = logger m"
proof (induction xs arbitrary: m)
  case Nil
  then show ?case by simp
next
  case (Cons x xs)
  obtain e c where x: "x = (e, c)" by (cases x)
  from step_bindings [OF Cons.prems, of e c]
  have b: "getKeyspaceMetadata (snd (step e c m)) = Some s"
    "getKeyspaceName (snd (step e c m)) = getKeyspaceName m"
    "logger (snd (step e c m)) = logger m"
    using Cons.prems by simp_all
  from Cons.IH [OF b(1)] b x show ?case by simp
qed

subsection \<open>The small cluster, evaluated\<close>

lemmas model_defs = init_def keyspaceChanged_def setPartitioner_def addHost_def addHosts_def
  removeHost_def rebuildAndStore_def getMetadataForUpdate_def getMetadataReadOnly_def
  resetTokenRing_def updateReplicas_def mapContents_def cow_add_def cow_remove_def cow_get_def
  zeroMetadata_def newManager_def Let_def

lemmas example_defs = exampleEnv_def exampleSession_def hostA_def hostB_def failingEnv_def
  warmUp_def noRingEnv_def

lemma wellFormed_exampleManager: "wellFormed exampleManager"
  unfolding exampleManager_def by (rule wellFormed_run) (rule wellFormed_newManager)

lemma exampleManager_fields:
  "getKeyspaceMetadata exampleManager = Some 0"
  "getKeyspaceName exampleManager = Some 0"
  "logger exampleManager = Some 7"
  "partitioner exampleManager = ''Murmur3''"
  "hosts exampleManager = [hostA]"
  "metadata exampleManager = Some 2"
  "snapNext exampleManager = 3"
  "mapNext exampleManager = 3"
  "printed exampleManager = [(7, ''Unable to update the token ring due to error: no tokens'')]"
  by (simp_all add: exampleManager_def model_defs example_defs)

lemma exampleManager_view:
  "currentRing exampleManager = Some (TokenRing ''Murmur3'' [(0, ''10.0.0.1'')])"
  "currentReplicas exampleManager ''ks1'' = Some [(0, [''10.0.0.1''])]"
  "currentReplicas exampleManager ''ks2'' = Some [(0, [''10.0.0.1''])]"
  by (simp_all add: currentRing_def currentReplicas_def exampleManager_def model_defs
      example_defs restrict_map_def map_add_def)

lemma wellFormed_staleManager: "wellFormed staleManager"
  unfolding staleManager_def by (rule wellFormed_run) (rule wellFormed_newManager)

lemma staleManager_fields:
  "getKeyspaceMetadata staleManager = Some 0"
  "getKeyspaceName staleManager = Some 0"
  "logger staleManager = Some 7"
  "partitioner staleManager = ''Murmur3''"
  "hosts staleManager = [hostA]"
  "metadata staleManager = Some 1"
  "snapNext staleManager = 2"
  by (simp_all add: staleManager_def model_defs example_defs)

lemma staleManager_view:
  "currentRing staleManager = None"
  "currentReplicas staleManager ''ks1'' = None"
  by (simp_all add: currentRing_def currentReplicas_def staleManager_def model_defs
      example_defs restrict_map_def map_add_def)

subsection \<open>Further facts about single calls\<close>

lemma fresh_slot:
  "wellFormed m \<Longrightarrow> getMetadataReadOnly m \<noteq> Some (snapNext m)"
  by (auto simp: wellFormed_iff getMetadataReadOnly_def)

lemma updateReplicas_resolution_fails:
  assumes gkm: "getKeyspaceMetadata m = Some s" and fails: "resolutionFails e s ks"
    and fresh: "replicas (snapshots m meta) \<noteq> Some (mapNext m)"
  shows "fst (updateReplicas e meta ks m) = Ok"
    and "snd (observe (snd (updateReplicas e meta ks m)) meta) ks = None"
    and "k \<noteq> ks \<Longrightarrow>
           snd (observe (snd (updateReplicas e meta ks m)) meta) k = snd (observe m meta) k"
    and "fst (observe (snd (updateReplicas e meta ks m)) meta) = fst (observe m meta)"
  using assms
  by (auto simp: updateReplicas_def observe_def mapContents_def resolutionFails_def Let_def
      map_add_def restrict_map_def split: option.splits sum.splits)

lemma addHost_registers:
  "connectAddress h \<in> set (map connectAddress (hosts (snd (addHost e h m))))"
proof (cases "connectAddress h \<in> set (map connectAddress (hosts m))")
  case True
  then show ?thesis by (simp add: addHost_def cow_add_def)
next
  case False
  then show ?thesis by (simp add: addHost_def cow_add_def rebuildAndStore_bindings)
qed

lemma cow_add_keeps:
  "a \<in> set (map connectAddress c) \<Longrightarrow> a \<in> set (map connectAddress (snd (cow_add c h)))"
  by (auto simp: cow_add_def)

lemma addAll_keeps:
  "a \<in> set (map connectAddress c) \<Longrightarrow> a \<in> set (map connectAddress (addAll c hs))"
proof (induction hs arbitrary: c)
  case Nil
  then show ?case by simp
next
  case (Cons h hs)
  from Cons.prems have "a \<in> set (map connectAddress (snd (cow_add c h)))"
    by (rule cow_add_keeps)
  then show ?case using Cons.IH by simp
qed

lemma addAll_registers:
  "h \<in> set hs \<Longrightarrow> connectAddress h \<in> set (map connectAddress (addAll c hs))"
proof (induction hs arbitrary: c)
  case Nil
  then show ?case by simp
next
  case (Cons x hs)
  show ?case
  proof (cases "h = x")
    case True
    have "connectAddress x \<in> set (map connectAddress (snd (cow_add c x)))"
      by (auto simp: cow_add_def)
    then have "connectAddress x \<in> set (map connectAddress (addAll (snd (cow_add c x)) hs))"
      by (rule addAll_keeps)
    then show ?thesis using True by simp
  next
    case False
    with Cons.prems have "h \<in> set hs" by simp
    then show ?thesis using Cons.IH by simp
  qed
qed

lemma rebuildAndStore_slot:
  "getMetadataReadOnly (snd (rebuildAndStore e m)) =
     (if fst (rebuildAndStore e m) = Ok then Some (snapNext m) else getMetadataReadOnly m)"
  by (auto simp: rebuildAndStore_def getMetadataForUpdate_def updateReplicas_def Let_def
      resetTokenRing_def getMetadataReadOnly_def split: option.splits sum.splits)

lemma keyspaceChanged_slot:
  "getMetadataReadOnly (snd (keyspaceChanged e ks m)) =
     (if fst (keyspaceChanged e ks m) = Ok then Some (snapNext m) else getMetadataReadOnly m)"
  by (auto simp: keyspaceChanged_def getMetadataForUpdate_def updateReplicas_def Let_def
      getMetadataReadOnly_def split: option.splits sum.splits)

lemma step_slot:
  "getMetadataReadOnly (snd (step e c m)) =
     (if passesGuard c m \<and> fst (step e c m) = Ok then Some (snapNext m)
      else getMetadataReadOnly m)"
proof (cases "passesGuard c m")
  case True
  show ?thesis
  proof (cases "isKeyspaceChanged c")
    case kc: True
    then obtain k where "c = KeyspaceChanged k" by (cases c) auto
    then show ?thesis by (simp add: keyspaceChanged_slot)
  next
    case False
    from step_is_rebuild [OF True False, of e] obtain m0
      where same: "sameButRegistry m m0" and st: "step e c m = rebuildAndStore e m0" by blast
    note f = sameButRegistry_fields [OF same]
    from rebuildAndStore_slot [of e m0] True show ?thesis by (simp add: st f)
  qed
next
  case False
  have "getMetadataReadOnly (snd (step e c m)) = getMetadataReadOnly m"
  proof (cases c)
    case (Init s)
    then show ?thesis by (simp add: init_def getMetadataReadOnly_def)
  next
    case (KeyspaceChanged ks)
    with False show ?thesis by simp
  next
    case (SetPartitioner p)
    with False show ?thesis by (simp add: setPartitioner_def)
  next
    case (AddHost h)
    with False show ?thesis
      by (cases "cow_add (hosts m) h") (simp add: addHost_def getMetadataReadOnly_def)
  next
    case (AddHosts hs)
    with False show ?thesis by simp
  next
    case (RemoveHost h)
    with False show ?thesis
      by (cases "cow_remove (hosts m) (connectAddress h)")
        (simp add: removeHost_def getMetadataReadOnly_def)
  qed
  with False show ?thesis by simp
qed

lemma run_slot_None:
  "getMetadataReadOnly (run m xs) = None \<longleftrightarrow> getMetadataReadOnly m = None \<and> \<not> stored m xs"
proof (induction xs arbitrary: m)
  case Nil
  show ?case by simp
next
  case (Cons x xs)
  obtain e c where x: "x = (e, c)" by (cases x)
  show ?case using Cons.IH [of "snd (step e c m)"] x by (simp add: step_slot)
qed

lemma rebuildAndStore_uninitialised:
  assumes "getKeyspaceMetadata m = None"
  shows "(\<exists>p. fst (rebuildAndStore e m) = Panic p) \<and>
         getMetadataReadOnly (snd (rebuildAndStore e m)) = getMetadataReadOnly m \<and>
         (getKeyspaceName m = None \<longrightarrow>
            (fst (rebuildAndStore e m) = Panic PanicNilGetKeyspaceName \<or>
             fst (rebuildAndStore e m) = Panic PanicNilLogger) \<and>
            mapNext (snd (rebuildAndStore e m)) = mapNext m) \<and>
         (getKeyspaceName m \<noteq> None \<and> fst (rebuildAndStore e m) \<noteq> Panic PanicNilLogger \<longrightarrow>
            fst (rebuildAndStore e m) = Panic PanicNilGetKeyspaceMetadata)"
  using assms
  by (auto simp: rebuildAndStore_def getMetadataForUpdate_def updateReplicas_def Let_def
      resetTokenRing_def getMetadataReadOnly_def split: option.splits sum.splits)

lemma keyspaceChanged_uninitialised:
  assumes "getKeyspaceMetadata m = None"
  shows "fst (keyspaceChanged e ks m) = Panic PanicNilGetKeyspaceMetadata \<and>
         getMetadataReadOnly (snd (keyspaceChanged e ks m)) = getMetadataReadOnly m"
  using assms
  by (auto simp: keyspaceChanged_def getMetadataForUpdate_def updateReplicas_def Let_def
      getMetadataReadOnly_def split: option.splits sum.splits)

section \<open>Properties\<close>

text \<open>
  C1. A snapshot that has been published is never written again. For every sequence of
  calls \<open>xs\<close> on a new manager after which the slot holds the snapshot \<open>p\<close>, and
  every further sequence \<open>ys\<close>: the object at \<open>p\<close> is the same after \<open>ys\<close>, and a
  reader holding \<open>p\<close> sees the same token ring and the same replica mapping. The
  working copy that \<^verbatim>\<open>getMetadataForUpdate\<close> hands to the next writer is another object,
  with the fields of \<open>p\<close>.
\<close>

theorem published_snapshot_immutable:
  assumes pub: "getMetadataReadOnly (run newManager xs) = Some p"
  shows "snapshots (run newManager (xs @ ys)) p = snapshots (run newManager xs) p \<and>
         observe (run newManager (xs @ ys)) p = observe (run newManager xs) p \<and>
         fst (getMetadataForUpdate (run newManager xs)) \<noteq> p \<and>
         snapshots (snd (getMetadataForUpdate (run newManager xs)))
           (fst (getMetadataForUpdate (run newManager xs))) = snapshots (run newManager xs) p"
proof -
  let ?m = "run newManager xs"
  have wf: "wellFormed ?m" by (rule wellFormed_run) (rule wellFormed_newManager)
  with pub have p: "p < snapNext ?m" by (simp add: wellFormed_iff getMetadataReadOnly_def)
  have u: "unchangedBelow ?m (run ?m ys)" by (rule unchangedBelow_run)
  from observe_unchanged [OF wf p u] have
    "snapshots (run ?m ys) p = snapshots ?m p \<and> observe (run ?m ys) p = observe ?m p" .
  moreover from p have "fst (getMetadataForUpdate ?m) \<noteq> p"
    by (simp add: getMetadataForUpdate_def Let_def)
  moreover from pub have "snapshots (snd (getMetadataForUpdate ?m))
      (fst (getMetadataForUpdate ?m)) = snapshots ?m p"
    by (simp add: getMetadataForUpdate_def Let_def)
  ultimately show ?thesis by (simp add: run_append)
qed

theorem published_snapshot_immutable_witness:
  "getMetadataReadOnly (run newManager warmUp) = Some 2 \<and>
   getMetadataReadOnly (run newManager (warmUp @ laterCalls)) = Some 5 \<and>
   fst (observe (run newManager (warmUp @ laterCalls)) 5) =
     Some (TokenRing ''Murmur3'' [(50, ''10.0.0.2'')]) \<and>
   snd (observe (run newManager (warmUp @ laterCalls)) 5) ''ks2'' = Some [(0, [''10.0.0.1''])] \<and>
   snd (observe (run newManager (warmUp @ laterCalls)) 5) ''ks1'' = Some [(50, [''10.0.0.2''])] \<and>
   fst (observe (run newManager warmUp) 2) = Some (TokenRing ''Murmur3'' [(0, ''10.0.0.1'')]) \<and>
   observe (run newManager (warmUp @ laterCalls)) 2 = observe (run newManager warmUp) 2"
proof -
  have pub: "getMetadataReadOnly (run newManager warmUp) = Some 2"
    using exampleManager_fields(6) by (simp add: exampleManager_def getMetadataReadOnly_def)
  have later: "run newManager (warmUp @ laterCalls) = run exampleManager laterCalls"
    by (simp add: run_append exampleManager_def)
  have "getMetadataReadOnly (run newManager (warmUp @ laterCalls)) = Some 5"
    unfolding later
    by (simp add: laterCalls_def exampleManager_def model_defs example_defs)
  moreover have "fst (observe (run newManager (warmUp @ laterCalls)) 5) =
     Some (TokenRing ''Murmur3'' [(50, ''10.0.0.2'')])"
    unfolding later
    by (simp add: observe_def laterCalls_def exampleManager_def model_defs example_defs)
  moreover have
    "snd (observe (run newManager (warmUp @ laterCalls)) 5) ''ks2'' = Some [(0, [''10.0.0.1''])]"
    "snd (observe (run newManager (warmUp @ laterCalls)) 5) ''ks1'' = Some [(50, [''10.0.0.2''])]"
    unfolding later
    by (simp_all add: observe_def laterCalls_def exampleManager_def model_defs example_defs
        restrict_map_def map_add_def)
  moreover have
    "fst (observe (run newManager warmUp) 2) = Some (TokenRing ''Murmur3'' [(0, ''10.0.0.1'')])"
    by (simp add: observe_def model_defs example_defs)
  ultimately show ?thesis
    using pub published_snapshot_immutable [OF pub, of laterCalls] by simp
qed

text \<open>
  C2. \<^verbatim>\<open>keyspaceChanged\<close> for the keyspace \<open>ks1\<close>, on an initialised manager: the call
  returns, the slot holds a new snapshot, the token ring of that snapshot is the ring
  published before, every keyspace other than \<open>ks1\<close> has the entry it had before (or
  none, if it had none), and the entry of \<open>ks1\<close> is the recomputed one.
\<close>

theorem keyspaceChanged_scoped:
  assumes wf: "wellFormed m" and gkm: "getKeyspaceMetadata m = Some s"
  shows "fst (keyspaceChanged e ks1 m) = Ok \<and>
         getMetadataReadOnly (snd (keyspaceChanged e ks1 m)) = Some (snapNext m) \<and>
         getMetadataReadOnly (snd (keyspaceChanged e ks1 m)) \<noteq> getMetadataReadOnly m \<and>
         currentRing (snd (keyspaceChanged e ks1 m)) = currentRing m \<and>
         (\<forall>ks2. ks2 \<noteq> ks1 \<longrightarrow>
            currentReplicas (snd (keyspaceChanged e ks1 m)) ks2 = currentReplicas m ks2) \<and>
         currentReplicas (snd (keyspaceChanged e ks1 m)) ks1 =
           recomputed e s ks1 (currentRing m)"
proof -
  note k = keyspaceChanged_publishes [OF wf gkm, of e ks1]
  from k(2) fresh_slot [OF wf]
  have "getMetadataReadOnly (snd (keyspaceChanged e ks1 m)) \<noteq> getMetadataReadOnly m"
    by simp
  with k show ?thesis by simp
qed

theorem keyspaceChanged_scoped_witness:
  "wellFormed exampleManager \<and> getKeyspaceMetadata exampleManager = Some 0 \<and>
   currentRing exampleManager = Some (TokenRing ''Murmur3'' [(0, ''10.0.0.1'')]) \<and>
   currentReplicas exampleManager ''ks2'' = Some [(0, [''10.0.0.1''])] \<and>
   fst (keyspaceChanged failingEnv ''ks1'' exampleManager) = Ok \<and>
   getMetadataReadOnly (snd (keyspaceChanged failingEnv ''ks1'' exampleManager)) = Some 3 \<and>
   currentRing (snd (keyspaceChanged failingEnv ''ks1'' exampleManager)) =
     Some (TokenRing ''Murmur3'' [(0, ''10.0.0.1'')]) \<and>
   currentReplicas (snd (keyspaceChanged failingEnv ''ks1'' exampleManager)) ''ks2'' =
     Some [(0, [''10.0.0.1''])] \<and>
   currentReplicas (snd (keyspaceChanged failingEnv ''ks1'' exampleManager)) ''ks1'' = None"
proof -
  have r: "recomputed failingEnv 0 ''ks1'' (currentRing exampleManager) = None"
    by (simp add: recomputed_def example_defs)
  show ?thesis
    using keyspaceChanged_scoped
      [OF wellFormed_exampleManager exampleManager_fields(1), of failingEnv "''ks1''"]
      wellFormed_exampleManager exampleManager_fields exampleManager_view r
    by simp
qed

text \<open>
  C3. A call that reaches \<^verbatim>\<open>updateReplicas\<close> with the target keyspace \<open>ks\<close> while the
  resolver returns an error for \<open>ks\<close>, or \<^verbatim>\<open>getStrategy\<close> yields no strategy: the call
  returns without a panic and stores a new snapshot; in that snapshot \<open>ks\<close> has no
  entry, every other keyspace has its prior entry, and the token ring is the one the
  working snapshot carried into \<^verbatim>\<open>updateReplicas\<close> (the published ring for
  \<^verbatim>\<open>keyspaceChanged\<close>, the ring left by \<^verbatim>\<open>resetTokenRing\<close> for the other calls). The only
  panic left to an initialised manager, \<^verbatim>\<open>Printf\<close> on a nil logger, is excluded by
  hypothesis.
\<close>

theorem resolution_failure_omits_keyspace:
  assumes wf: "wellFormed m" and gkm: "getKeyspaceMetadata m = Some s"
    and tk: "targetKeyspace e c m = Some ks"
    and guard: "passesGuard c m"
    and nolog: "fst (step e c m) \<noteq> Panic PanicNilLogger"
    and fails: "resolutionFails e s ks"
  shows "fst (step e c m) = Ok \<and>
         getMetadataReadOnly (snd (step e c m)) = Some (snapNext m) \<and>
         getMetadataReadOnly (snd (step e c m)) \<noteq> getMetadataReadOnly m \<and>
         currentReplicas (snd (step e c m)) ks = None \<and>
         (\<forall>k. k \<noteq> ks \<longrightarrow> currentReplicas (snd (step e c m)) k = currentReplicas m k) \<and>
         currentRing (snd (step e c m)) =
           (if isKeyspaceChanged c then currentRing m
            else ringAfterReset e (snd (step e c m)) (currentRing m))"
proof -
  note p = step_publishes [OF wf gkm tk guard nolog]
  from fails have r: "recomputed e s ks ring = None" for ring
    by (simp add: resolutionFails_def recomputed_def split: sum.splits)
  from p(2) fresh_slot [OF wf]
  have "getMetadataReadOnly (snd (step e c m)) \<noteq> getMetadataReadOnly m" by simp
  moreover have "currentReplicas (snd (step e c m)) ks = None"
    by (subst p(5)) (simp add: r)
  moreover have "\<forall>k. k \<noteq> ks \<longrightarrow> currentReplicas (snd (step e c m)) k = currentReplicas m k"
    by (subst p(5)) simp
  ultimately show ?thesis using p(1,2,4) by simp
qed

theorem resolution_failure_omits_keyspace_witness:
  "wellFormed exampleManager \<and> getKeyspaceMetadata exampleManager = Some 0 \<and>
   targetKeyspace failingEnv (AddHost hostB) exampleManager = Some ''ks1'' \<and>
   passesGuard (AddHost hostB) exampleManager \<and>
   fst (step failingEnv (AddHost hostB) exampleManager) \<noteq> Panic PanicNilLogger \<and>
   resolutionFails failingEnv 0 ''ks1'' \<and>
   fst (step failingEnv (AddHost hostB) exampleManager) = Ok \<and>
   getMetadataReadOnly (snd (step failingEnv (AddHost hostB) exampleManager)) = Some 3 \<and>
   currentReplicas (snd (step failingEnv (AddHost hostB) exampleManager)) ''ks1'' = None \<and>
   currentReplicas (snd (step failingEnv (AddHost hostB) exampleManager)) ''ks2'' =
     Some [(0, [''10.0.0.1''])] \<and>
   currentRing (snd (step failingEnv (AddHost hostB) exampleManager)) =
     Some (TokenRing ''Murmur3'' [(0, ''10.0.0.1''), (50, ''10.0.0.2'')])"
proof -
  have tk: "targetKeyspace failingEnv (AddHost hostB) exampleManager = Some ''ks1''"
    by (simp add: exampleManager_fields example_defs)
  have guard: "passesGuard (AddHost hostB) exampleManager"
    by (simp add: exampleManager_fields cow_add_def example_defs)
  have nolog: "fst (step failingEnv (AddHost hostB) exampleManager) \<noteq> Panic PanicNilLogger"
    using guard
    by (cases "cow_add (hosts exampleManager) hostB")
      (simp add: addHost_def rebuildAndStore_logger_no_panic [of _ 7] exampleManager_fields)
  have fails: "resolutionFails failingEnv 0 ''ks1''"
    by (simp add: resolutionFails_def example_defs)
  have hs: "hosts (snd (step failingEnv (AddHost hostB) exampleManager)) = [hostA, hostB]"
    by (simp add: addHost_def rebuildAndStore_bindings cow_add_def exampleManager_fields
        hostA_def hostB_def)
  have pt: "partitioner (snd (step failingEnv (AddHost hostB) exampleManager)) = ''Murmur3''"
    by (simp add: addHost_def rebuildAndStore_bindings cow_add_def exampleManager_fields
        hostA_def hostB_def)
  have ring: "ringAfterReset failingEnv (snd (step failingEnv (AddHost hostB) exampleManager))
      (currentRing exampleManager) =
      Some (TokenRing ''Murmur3'' [(0, ''10.0.0.1''), (50, ''10.0.0.2'')])"
    unfolding ringAfterReset_def hs pt by (simp add: cow_get_def example_defs)
  show ?thesis
    using resolution_failure_omits_keyspace
      [OF wellFormed_exampleManager exampleManager_fields(1) tk guard nolog fails]
      wellFormed_exampleManager exampleManager_fields exampleManager_view
      tk guard nolog fails ring
    by simp
qed




text \<open>
  C5. \<^verbatim>\<open>addHost\<close> twice with the same host. The second call is a no-op on the whole
  manager, whatever the first call did: it returns without a panic and leaves the state,
  hence the slot, exactly as the first call left it. When the host was not known and the
  manager is initialised, the first call stores one new snapshot; together the two calls
  make exactly one store.
\<close>

theorem addHost_twice:
  "addHost e2 h (snd (addHost e1 h m)) = (Ok, snd (addHost e1 h m)) \<and>
   getMetadataReadOnly (snd (addHost e2 h (snd (addHost e1 h m)))) =
     getMetadataReadOnly (snd (addHost e1 h m)) \<and>
   (wellFormed m \<and> getKeyspaceMetadata m \<noteq> None \<and> getKeyspaceName m \<noteq> None \<and>
    connectAddress h \<notin> set (map connectAddress (hosts m)) \<and>
    fst (addHost e1 h m) \<noteq> Panic PanicNilLogger \<longrightarrow>
      fst (addHost e1 h m) = Ok \<and>
      getMetadataReadOnly (snd (addHost e1 h m)) = Some (snapNext m) \<and>
      getMetadataReadOnly (snd (addHost e1 h m)) \<noteq> getMetadataReadOnly m \<and>
      snapNext (snd (addHost e1 h m)) = Suc (snapNext m))"
proof -
  have second: "addHost e2 h (snd (addHost e1 h m)) = (Ok, snd (addHost e1 h m))"
    using addHost_registers [of h e1 m] by (simp add: addHost_def cow_add_def)
  have first: "fst (addHost e1 h m) = Ok \<and>
      getMetadataReadOnly (snd (addHost e1 h m)) = Some (snapNext m) \<and>
      getMetadataReadOnly (snd (addHost e1 h m)) \<noteq> getMetadataReadOnly m \<and>
      snapNext (snd (addHost e1 h m)) = Suc (snapNext m)"
    if wf: "wellFormed m" and gkm: "getKeyspaceMetadata m \<noteq> None"
      and gkn: "getKeyspaceName m \<noteq> None"
      and new: "connectAddress h \<notin> set (map connectAddress (hosts m))"
      and nolog: "fst (addHost e1 h m) \<noteq> Panic PanicNilLogger"
  proof -
    from gkm obtain s where s: "getKeyspaceMetadata m = Some s" by auto
    from gkn obtain s' where "getKeyspaceName m = Some s'" by auto
    then have tk: "targetKeyspace e1 (AddHost h) m = Some (cfg_Keyspace (session e1 s'))"
      by simp
    from new have guard: "passesGuard (AddHost h) m" by (simp add: cow_add_def)
    from nolog have nolog': "fst (step e1 (AddHost h) m) \<noteq> Panic PanicNilLogger" by simp
    note p = step_publishes [OF wf s tk guard nolog']
    from p(1,2,3) fresh_slot [OF wf] show ?thesis by simp
  qed
  from second have "getMetadataReadOnly (snd (addHost e2 h (snd (addHost e1 h m)))) =
      getMetadataReadOnly (snd (addHost e1 h m))"
    by simp
  with second first show ?thesis by blast
qed

theorem addHost_twice_witness:
  "wellFormed exampleManager \<and> getKeyspaceMetadata exampleManager \<noteq> None \<and>
   getKeyspaceName exampleManager \<noteq> None \<and>
   connectAddress hostB \<notin> set (map connectAddress (hosts exampleManager)) \<and>
   fst (addHost exampleEnv hostB exampleManager) \<noteq> Panic PanicNilLogger \<and>
   getMetadataReadOnly exampleManager = Some 2 \<and>
   fst (addHost exampleEnv hostB exampleManager) = Ok \<and>
   getMetadataReadOnly (snd (addHost exampleEnv hostB exampleManager)) = Some 3 \<and>
   addHost exampleEnv hostB (snd (addHost exampleEnv hostB exampleManager)) =
     (Ok, snd (addHost exampleEnv hostB exampleManager)) \<and>
   getMetadataReadOnly
     (snd (addHost exampleEnv hostB (snd (addHost exampleEnv hostB exampleManager)))) = Some 3 \<and>
   snapNext (snd (addHost exampleEnv hostB exampleManager)) = 4"
proof -
  have new: "connectAddress hostB \<notin> set (map connectAddress (hosts exampleManager))"
    by (simp add: exampleManager_fields hostA_def hostB_def)
  have nolog: "fst (addHost exampleEnv hostB exampleManager) \<noteq> Panic PanicNilLogger"
    using new
    by (simp add: addHost_def cow_add_def rebuildAndStore_logger_no_panic [of _ 7]
        exampleManager_fields)
  show ?thesis
    using addHost_twice [of exampleEnv hostB exampleEnv exampleManager]
      wellFormed_exampleManager exampleManager_fields new nolog
    by (simp add: getMetadataReadOnly_def)
qed

text \<open>
  C6. A call that rebuilds the token ring (\<^verbatim>\<open>setPartitioner\<close> with another
  partitioner, \<^verbatim>\<open>addHost\<close> of an unknown host, \<^verbatim>\<open>addHosts\<close>, \<^verbatim>\<open>removeHost\<close> of a known
  host) on an initialised manager with a logger, when \<^verbatim>\<open>newTokenRing\<close> returns the error
  \<open>err\<close>: the error is printed through the logger, the stored snapshot has the ring
  that was published before (none if there was none), and the store takes place, with
  the replica map of the active keyspace recomputed from that ring.
\<close>

theorem ring_failure_retains_ring:
  assumes wf: "wellFormed m" and gkm: "getKeyspaceMetadata m = Some s"
    and gkn: "getKeyspaceName m = Some s'" and lg: "logger m = Some l"
    and guard: "passesGuard c m" and notkc: "\<not> isKeyspaceChanged c"
    and part: "partitioner (snd (step e c m)) \<noteq> []"
    and fail: "newTokenRing e (partitioner (snd (step e c m)))
                 (cow_get (hosts (snd (step e c m)))) = Inl err"
  shows "fst (step e c m) = Ok \<and>
         printed (snd (step e c m)) =
           printed m @ [(l, ''Unable to update the token ring due to error: '' @ err)] \<and>
         currentRing (snd (step e c m)) = currentRing m \<and>
         getMetadataReadOnly (snd (step e c m)) = Some (snapNext m) \<and>
         getMetadataReadOnly (snd (step e c m)) \<noteq> getMetadataReadOnly m \<and>
         currentReplicas (snd (step e c m)) =
           (currentReplicas m)(cfg_Keyspace (session e s') :=
              recomputed e s (cfg_Keyspace (session e s')) (currentRing m))"
proof -
  from step_is_rebuild [OF guard notkc, of e] obtain m0
    where same: "sameButRegistry m m0" and st: "step e c m = rebuildAndStore e m0" by blast
  note f = sameButRegistry_fields [OF same]
  have gkm0: "getKeyspaceMetadata m0 = Some s" and gkn0: "getKeyspaceName m0 = Some s'"
    and lg0: "logger m0 = Some l"
    using gkm gkn lg f by simp_all
  have part0: "partitioner m0 \<noteq> []" using part by (simp add: st rebuildAndStore_bindings)
  have fail0: "newTokenRing e (partitioner m0) (cow_get (hosts m0)) = Inl err"
    using fail by (simp add: st rebuildAndStore_bindings)
  have pr: "printed (snd (step e c m)) =
      printed m @ [(l, ''Unable to update the token ring due to error: '' @ err)]"
    using rebuildAndStore_printed [OF gkm0 gkn0 lg0, of e] part0 fail0 by (simp add: st f)
  have tk: "targetKeyspace e c m = Some (cfg_Keyspace (session e s'))"
    using notkc guard gkn by (cases c) simp_all
  have nolog: "fst (step e c m) \<noteq> Panic PanicNilLogger"
    using rebuildAndStore_logger_no_panic [OF lg0, of e] by (simp add: st)
  note p = step_publishes [OF wf gkm tk guard nolog]
  have ring: "currentRing (snd (step e c m)) = currentRing m"
    using p(4) notkc part fail by (simp add: ringAfterReset_def)
  from p(2) fresh_slot [OF wf]
  have ne: "getMetadataReadOnly (snd (step e c m)) \<noteq> getMetadataReadOnly m" by simp
  from p(1,2,5) pr ring ne show ?thesis by simp
qed

theorem ring_failure_retains_ring_witness:
  "wellFormed exampleManager \<and> getKeyspaceMetadata exampleManager = Some 0 \<and>
   getKeyspaceName exampleManager = Some 0 \<and> logger exampleManager = Some 7 \<and>
   passesGuard (SetPartitioner ''Random'') exampleManager \<and>
   \<not> isKeyspaceChanged (SetPartitioner ''Random'') \<and>
   partitioner (snd (step exampleEnv (SetPartitioner ''Random'') exampleManager)) = ''Random'' \<and>
   newTokenRing exampleEnv ''Random''
     (cow_get (hosts (snd (step exampleEnv (SetPartitioner ''Random'') exampleManager)))) =
     Inl ''unsupported partitioner'' \<and>
   fst (step exampleEnv (SetPartitioner ''Random'') exampleManager) = Ok \<and>
   printed (snd (step exampleEnv (SetPartitioner ''Random'') exampleManager)) =
     [(7, ''Unable to update the token ring due to error: no tokens''),
      (7, ''Unable to update the token ring due to error: unsupported partitioner'')] \<and>
   currentRing (snd (step exampleEnv (SetPartitioner ''Random'') exampleManager)) =
     Some (TokenRing ''Murmur3'' [(0, ''10.0.0.1'')]) \<and>
   getMetadataReadOnly (snd (step exampleEnv (SetPartitioner ''Random'') exampleManager)) =
     Some 3 \<and>
   currentReplicas (snd (step exampleEnv (SetPartitioner ''Random'') exampleManager)) ''ks1'' =
     Some [(0, [''10.0.0.1''])]"
proof -
  let ?c = "SetPartitioner ''Random''"
  have guard: "passesGuard ?c exampleManager" by (simp add: exampleManager_fields)
  have pt: "partitioner (snd (step exampleEnv ?c exampleManager)) = ''Random''"
    by (simp add: setPartitioner_def rebuildAndStore_bindings exampleManager_fields)
  have nt: "newTokenRing exampleEnv ''Random''
      (cow_get (hosts (snd (step exampleEnv ?c exampleManager)))) =
      Inl ''unsupported partitioner''"
    by (simp add: exampleEnv_def)
  have ne: "partitioner (snd (step exampleEnv ?c exampleManager)) \<noteq> []"
    unfolding pt by simp
  have nt': "newTokenRing exampleEnv (partitioner (snd (step exampleEnv ?c exampleManager)))
      (cow_get (hosts (snd (step exampleEnv ?c exampleManager)))) =
      Inl ''unsupported partitioner''"
    unfolding pt by (rule nt)
  have ks: "cfg_Keyspace (session exampleEnv 0) = ''ks1''"
    by (simp add: example_defs)
  have rc: "recomputed exampleEnv 0 ''ks1'' (currentRing exampleManager) =
      Some [(0, [''10.0.0.1''])]"
    unfolding exampleManager_view by (simp add: recomputed_def example_defs)
  note t = ring_failure_retains_ring
    [OF wellFormed_exampleManager exampleManager_fields(1) exampleManager_fields(2)
      exampleManager_fields(3) guard _ ne nt']
  have "\<not> isKeyspaceChanged ?c" by simp
  from t [OF this] wellFormed_exampleManager exampleManager_fields exampleManager_view
    guard pt nt ks rc
  show ?thesis by simp
qed

text \<open>
  C7. \<^verbatim>\<open>addHosts\<close>, for every list of hosts, on an initialised manager: every host of
  the list is in the registry afterwards and the partitioner is untouched; then, with no
  test of whether a host was new, the call rebuilds the token ring from the partitioner and
  the resulting registry (\<^verbatim>\<open>newTokenRing\<close> is called whenever a partitioner is set, and
  its ring is the published one unless it returns an error), recomputes the replica map
  of the active keyspace from that ring, and stores exactly one new snapshot. The
  instances below are a list of known hosts and the empty list, on a manager whose
  published snapshot has no ring yet, and a list with a new host.
\<close>

theorem addHosts_unconditional:
  assumes wf: "wellFormed m" and gkm: "getKeyspaceMetadata m = Some s"
    and gkn: "getKeyspaceName m = Some s'"
    and nolog: "fst (addHosts e hs m) \<noteq> Panic PanicNilLogger"
  shows "fst (addHosts e hs m) = Ok \<and>
         hosts (snd (addHosts e hs m)) = addAll (hosts m) hs \<and>
         partitioner (snd (addHosts e hs m)) = partitioner m \<and>
         (\<forall>h\<in>set hs. connectAddress h \<in> set (map connectAddress (hosts (snd (addHosts e hs m))))) \<and>
         getMetadataReadOnly (snd (addHosts e hs m)) = Some (snapNext m) \<and>
         getMetadataReadOnly (snd (addHosts e hs m)) \<noteq> getMetadataReadOnly m \<and>
         snapNext (snd (addHosts e hs m)) = Suc (snapNext m) \<and>
         currentRing (snd (addHosts e hs m)) =
           (if partitioner m = [] then currentRing m
            else case newTokenRing e (partitioner m) (cow_get (addAll (hosts m) hs)) of
                   Inl err \<Rightarrow> currentRing m
                 | Inr ring \<Rightarrow> Some ring) \<and>
         currentReplicas (snd (addHosts e hs m)) =
           (currentReplicas m)(cfg_Keyspace (session e s') :=
              recomputed e s (cfg_Keyspace (session e s')) (currentRing (snd (addHosts e hs m))))"
proof -
  have tk: "targetKeyspace e (AddHosts hs) m = Some (cfg_Keyspace (session e s'))"
    using gkn by simp
  have guard: "passesGuard (AddHosts hs) m" by simp
  from nolog have nolog': "fst (step e (AddHosts hs) m) \<noteq> Panic PanicNilLogger" by simp
  note p = step_publishes [OF wf gkm tk guard nolog']
  have hs: "hosts (snd (addHosts e hs m)) = addAll (hosts m) hs"
    by (simp add: addHosts_def rebuildAndStore_bindings)
  have pt: "partitioner (snd (addHosts e hs m)) = partitioner m"
    by (simp add: addHosts_def rebuildAndStore_bindings)
  have reg: "\<forall>h\<in>set hs. connectAddress h \<in> set (map connectAddress (hosts (snd (addHosts e hs m))))"
    unfolding hs using addAll_registers by blast
  from p(2) fresh_slot [OF wf]
  have ne: "getMetadataReadOnly (snd (addHosts e hs m)) \<noteq> getMetadataReadOnly m" by simp
  have ring: "currentRing (snd (addHosts e hs m)) =
           (if partitioner m = [] then currentRing m
            else case newTokenRing e (partitioner m) (cow_get (addAll (hosts m) hs)) of
                   Inl err \<Rightarrow> currentRing m
                 | Inr ring \<Rightarrow> Some ring)"
    using p(4) by (simp add: ringAfterReset_def hs pt)
  from p(1,2,3,5) hs pt reg ne ring show ?thesis by simp
qed

theorem addHosts_unconditional_witness:
  "wellFormed staleManager \<and> getKeyspaceMetadata staleManager = Some 0 \<and>
   getKeyspaceName staleManager = Some 0 \<and>
   hosts staleManager = [hostA] \<and> getMetadataReadOnly staleManager = Some 1 \<and>
   currentRing staleManager = None \<and> currentReplicas staleManager ''ks1'' = None \<and>
   fst (addHosts exampleEnv [hostA] staleManager) \<noteq> Panic PanicNilLogger \<and>
   fst (addHosts exampleEnv [hostA] staleManager) = Ok \<and>
   hosts (snd (addHosts exampleEnv [hostA] staleManager)) = [hostA] \<and>
   partitioner (snd (addHosts exampleEnv [hostA] staleManager)) = ''Murmur3'' \<and>
   getMetadataReadOnly (snd (addHosts exampleEnv [hostA] staleManager)) = Some 2 \<and>
   snapNext (snd (addHosts exampleEnv [hostA] staleManager)) = 3 \<and>
   currentRing (snd (addHosts exampleEnv [hostA] staleManager)) =
     Some (TokenRing ''Murmur3'' [(0, ''10.0.0.1'')]) \<and>
   currentReplicas (snd (addHosts exampleEnv [hostA] staleManager)) ''ks1'' =
     Some [(0, [''10.0.0.1''])] \<and>
   fst (addHosts exampleEnv [] staleManager) = Ok \<and>
   hosts (snd (addHosts exampleEnv [] staleManager)) = [hostA] \<and>
   getMetadataReadOnly (snd (addHosts exampleEnv [] staleManager)) = Some 2 \<and>
   currentRing (snd (addHosts exampleEnv [] staleManager)) =
     Some (TokenRing ''Murmur3'' [(0, ''10.0.0.1'')]) \<and>
   currentReplicas (snd (addHosts exampleEnv [] staleManager)) ''ks1'' =
     Some [(0, [''10.0.0.1''])] \<and>
   fst (addHosts exampleEnv [hostB, hostA] exampleManager) = Ok \<and>
   hosts (snd (addHosts exampleEnv [hostB, hostA] exampleManager)) = [hostA, hostB] \<and>
   getMetadataReadOnly (snd (addHosts exampleEnv [hostB, hostA] exampleManager)) = Some 3 \<and>
   currentRing (snd (addHosts exampleEnv [hostB, hostA] exampleManager)) =
     Some (TokenRing ''Murmur3'' [(0, ''10.0.0.1''), (50, ''10.0.0.2'')]) \<and>
   currentReplicas (snd (addHosts exampleEnv [hostB, hostA] exampleManager)) ''ks1'' =
     Some [(0, [''10.0.0.1'']), (50, [''10.0.0.2''])]"
proof -
  have nolog: "fst (addHosts exampleEnv hs staleManager) \<noteq> Panic PanicNilLogger" for hs
    by (simp add: addHosts_def rebuildAndStore_logger_no_panic [of _ 7] staleManager_fields)
  have nolog': "fst (addHosts exampleEnv hs exampleManager) \<noteq> Panic PanicNilLogger" for hs
    by (simp add: addHosts_def rebuildAndStore_logger_no_panic [of _ 7] exampleManager_fields)
  have known: "addAll (hosts staleManager) [hostA] = [hostA]"
    "addAll (hosts staleManager) [] = [hostA]"
    by (simp_all add: staleManager_fields cow_add_def)
  have new: "addAll (hosts exampleManager) [hostB, hostA] = [hostA, hostB]"
    by (simp add: exampleManager_fields cow_add_def hostA_def hostB_def)
  have ring: "newTokenRing exampleEnv ''Murmur3'' (cow_get [hostA]) =
      Inr (TokenRing ''Murmur3'' [(0, ''10.0.0.1'')])"
    "newTokenRing exampleEnv ''Murmur3'' (cow_get [hostA, hostB]) =
      Inr (TokenRing ''Murmur3'' [(0, ''10.0.0.1''), (50, ''10.0.0.2'')])"
    by (simp_all add: cow_get_def exampleEnv_def hostA_def hostB_def)
  have ks: "cfg_Keyspace (session exampleEnv 0) = ''ks1''"
    by (simp add: example_defs)
  have rc: "recomputed exampleEnv 0 ''ks1'' (Some (TokenRing ''Murmur3'' [(0, ''10.0.0.1'')])) =
      Some [(0, [''10.0.0.1''])]"
    "recomputed exampleEnv 0 ''ks1''
       (Some (TokenRing ''Murmur3'' [(0, ''10.0.0.1''), (50, ''10.0.0.2'')])) =
      Some [(0, [''10.0.0.1'']), (50, [''10.0.0.2''])]"
    by (simp_all add: recomputed_def example_defs)
  note one = addHosts_unconditional
    [OF wellFormed_staleManager staleManager_fields(1) staleManager_fields(2) nolog,
      of "[hostA]"]
  note none = addHosts_unconditional
    [OF wellFormed_staleManager staleManager_fields(1) staleManager_fields(2) nolog,
      of "[]"]
  note two = addHosts_unconditional
    [OF wellFormed_exampleManager exampleManager_fields(1) exampleManager_fields(2) nolog',
      of "[hostB, hostA]"]
  from one none two wellFormed_staleManager staleManager_fields staleManager_view
    exampleManager_fields nolog known new ring ks rc
  show ?thesis by (simp add: getMetadataReadOnly_def)
qed

text \<open>
  C8. Once \<^verbatim>\<open>init\<close> has returned, every later \<^verbatim>\<open>init\<close>, with any session and after any
  calls in between, panics and leaves the manager as it found it; the resolver, the
  keyspace name function and the logger stay those of the first \<^verbatim>\<open>init\<close>.
\<close>

theorem init_twice_panics:
  assumes first: "fst (init e s m) = Ok"
  shows "init e' s' (run (snd (init e s m)) xs) =
           (Panic PanicSharedPolicy, run (snd (init e s m)) xs) \<and>
         getKeyspaceMetadata (run (snd (init e s m)) xs) = Some s \<and>
         getKeyspaceName (run (snd (init e s m)) xs) = Some s \<and>
         logger (run (snd (init e s m)) xs) = session_logger (session e s)"
proof -
  from first have none: "getKeyspaceMetadata m = None"
    by (simp add: init_def split: if_splits)
  then have b: "getKeyspaceMetadata (snd (init e s m)) = Some s"
    "getKeyspaceName (snd (init e s m)) = Some s"
    "logger (snd (init e s m)) = session_logger (session e s)"
    by (simp_all add: init_def)
  from run_bindings [OF b(1), of xs] b
  have r: "getKeyspaceMetadata (run (snd (init e s m)) xs) = Some s"
    "getKeyspaceName (run (snd (init e s m)) xs) = Some s"
    "logger (run (snd (init e s m)) xs) = session_logger (session e s)"
    by simp_all
  from r(1) have "init e' s' (run (snd (init e s m)) xs) =
      (Panic PanicSharedPolicy, run (snd (init e s m)) xs)"
    by (simp add: init_def)
  with r show ?thesis by simp
qed

theorem init_twice_panics_witness:
  "fst (init exampleEnv 0 newManager) = Ok \<and>
   init failingEnv 1 (run (snd (init exampleEnv 0 newManager)) laterCalls) =
     (Panic PanicSharedPolicy, run (snd (init exampleEnv 0 newManager)) laterCalls) \<and>
   init exampleEnv 0 (run (snd (init exampleEnv 0 newManager)) []) =
     (Panic PanicSharedPolicy, snd (init exampleEnv 0 newManager)) \<and>
   getKeyspaceMetadata (run (snd (init exampleEnv 0 newManager)) laterCalls) = Some 0 \<and>
   logger (run (snd (init exampleEnv 0 newManager)) laterCalls) = Some 7"
proof -
  have first: "fst (init exampleEnv 0 newManager) = Ok"
    by (simp add: init_def newManager_def)
  have lg: "session_logger (session exampleEnv 0) = Some 7"
    by (simp add: example_defs)
  from init_twice_panics [OF first, of failingEnv 1 laterCalls]
    init_twice_panics [OF first, of exampleEnv 0 "[]"] first lg
  show ?thesis by simp
qed

text \<open>
  C9, as stated, fails. On an initialised manager with no partitioner and no host, a
  keyspace event stores a snapshot, and \<^verbatim>\<open>getMetadataReadOnly\<close> returns it; so does
  \<^verbatim>\<open>addHost\<close> while the partitioner is still unknown.
\<close>

theorem nil_until_first_store_counterexample:
  "partitioner (run newManager [(exampleEnv, Init 0), (exampleEnv, KeyspaceChanged ''ks1'')]) = [] \<and>
   hosts (run newManager [(exampleEnv, Init 0), (exampleEnv, KeyspaceChanged ''ks1'')]) = [] \<and>
   getMetadataReadOnly
     (run newManager [(exampleEnv, Init 0), (exampleEnv, KeyspaceChanged ''ks1'')]) = Some 0 \<and>
   partitioner (run newManager [(exampleEnv, Init 0), (exampleEnv, AddHost hostA)]) = [] \<and>
   getMetadataReadOnly
     (run newManager [(exampleEnv, Init 0), (exampleEnv, AddHost hostA)]) \<noteq> None"
  by (simp add: model_defs example_defs)

text \<open>
  C9, amended. \<^verbatim>\<open>getMetadataReadOnly\<close> returns nil before any store: on a new manager,
  and after a sequence of calls exactly when none of them passed its guard and returned
  without a panic. A call that passes its guard and returns stores the snapshot it
  built, whether or not a partitioner is known or a host is registered, and any other
  call leaves the slot as it was; so after the first store \<^verbatim>\<open>getMetadataReadOnly\<close>
  returns the latest stored snapshot. It does so without the mutex: it returns, and
  leaves mutex and manager as they are, also while the mutex is held, when each of the
  six operations waits.
\<close>

theorem nil_until_first_store:
  "getMetadataReadOnly newManager = None \<and>
   (getMetadataReadOnly (run newManager xs) = None \<longleftrightarrow> \<not> stored newManager xs) \<and>
   getMetadataReadOnly (snd (step e c m)) =
     (if passesGuard c m \<and> fst (step e c m) = Ok then Some (snapNext m)
      else getMetadataReadOnly m) \<and>
   readUnderMutex (held, m) = Some (getMetadataReadOnly m, held, m) \<and>
   callUnderMutex e c (True, m) = None \<and>
   callUnderMutex e c (False, m) = Some (fst (step e c m), False, snd (step e c m))"
proof -
  have n: "getMetadataReadOnly newManager = None"
    by (simp add: getMetadataReadOnly_def newManager_def)
  have r: "readUnderMutex (held, m) = Some (getMetadataReadOnly m, held, m)"
    by (simp add: readUnderMutex_def)
  have w: "callUnderMutex e c (True, m) = None"
    by (simp add: callUnderMutex_def)
  have f: "callUnderMutex e c (False, m) = Some (fst (step e c m), False, snd (step e c m))"
    by (simp add: callUnderMutex_def split: prod.splits)
  from n r w f run_slot_None [of newManager xs] step_slot [of e c m] show ?thesis by simp
qed

theorem nil_until_first_store_witness:
  "getMetadataReadOnly
     (run newManager [(exampleEnv, Init 0), (exampleEnv, SetPartitioner []),
                      (exampleEnv, RemoveHost hostA)]) = None \<and>
   \<not> stored newManager [(exampleEnv, Init 0), (exampleEnv, SetPartitioner []),
                         (exampleEnv, RemoveHost hostA)] \<and>
   passesGuard (AddHost hostB) exampleManager \<and>
   fst (step exampleEnv (AddHost hostB) exampleManager) = Ok \<and>
   getMetadataReadOnly exampleManager = Some 2 \<and>
   getMetadataReadOnly (snd (step exampleEnv (AddHost hostB) exampleManager)) = Some 3 \<and>
   \<not> passesGuard (AddHost hostA) exampleManager \<and>
   getMetadataReadOnly (snd (step exampleEnv (AddHost hostA) exampleManager)) = Some 2 \<and>
   readUnderMutex (True, exampleManager) = Some (Some 2, True, exampleManager) \<and>
   callUnderMutex exampleEnv (AddHost hostB) (True, exampleManager) = None"
proof -
  let ?xs = "[(exampleEnv, Init 0), (exampleEnv, SetPartitioner []),
              (exampleEnv, RemoveHost hostA)]"
  have ns: "\<not> stored newManager ?xs"
    by (simp add: init_def setPartitioner_def removeHost_def cow_remove_def newManager_def)
  have g: "passesGuard (AddHost hostB) exampleManager"
    by (simp add: exampleManager_fields cow_add_def hostA_def hostB_def)
  have ng: "\<not> passesGuard (AddHost hostA) exampleManager"
    by (simp add: exampleManager_fields cow_add_def)
  have tk: "targetKeyspace exampleEnv (AddHost hostB) exampleManager = Some ''ks1''"
    by (simp add: exampleManager_fields example_defs)
  have nolog: "fst (step exampleEnv (AddHost hostB) exampleManager) \<noteq> Panic PanicNilLogger"
    using g
    by (cases "cow_add (hosts exampleManager) hostB")
      (simp add: addHost_def rebuildAndStore_logger_no_panic [of _ 7] exampleManager_fields)
  have ok: "fst (step exampleEnv (AddHost hostB) exampleManager) = Ok"
    by (rule step_publishes(1)
        [OF wellFormed_exampleManager exampleManager_fields(1) tk g nolog])
  have slot: "getMetadataReadOnly exampleManager = Some 2"
    by (simp add: getMetadataReadOnly_def exampleManager_fields)
  from nil_until_first_store [of ?xs exampleEnv "AddHost hostB" exampleManager True]
    nil_until_first_store [of ?xs exampleEnv "AddHost hostA" exampleManager True]
    ns g ng ok slot exampleManager_fields
  show ?thesis by simp
qed

text \<open>
  C10, as stated, fails in its cause. On a manager on which \<^verbatim>\<open>init\<close> was never called,
  \<^verbatim>\<open>addHost\<close> of a new host panics, but not in \<^verbatim>\<open>updateReplicas\<close>: the argument
  \<^verbatim>\<open>m.getKeyspaceName()\<close> is evaluated first, that function is nil as well, and the
  panic is raised before \<^verbatim>\<open>updateReplicas\<close> is entered (no map has been made).
\<close>

theorem panic_in_updateReplicas_counterexample:
  "getKeyspaceMetadata newManager = None \<and>
   passesGuard (AddHost hostA) newManager \<and>
   fst (addHost exampleEnv hostA newManager) = Panic PanicNilGetKeyspaceName \<and>
   fst (addHost exampleEnv hostA newManager) \<noteq> Panic PanicNilGetKeyspaceMetadata \<and>
   mapNext (snd (addHost exampleEnv hostA newManager)) = mapNext newManager"
  by (simp add: model_defs example_defs)

text \<open>
  C10, amended. While \<^verbatim>\<open>m.getKeyspaceMetadata\<close> is nil, every call that passes its
  guard panics and stores nothing. \<^verbatim>\<open>keyspaceChanged\<close> panics in \<^verbatim>\<open>updateReplicas\<close>, on
  the call of the nil resolver. The other calls panic earlier when
  \<^verbatim>\<open>m.getKeyspaceName\<close> is nil too (on that call, or on \<^verbatim>\<open>Printf\<close> of the nil logger
  when the ring cannot be built), and in \<^verbatim>\<open>updateReplicas\<close> otherwise.
\<close>

theorem uninitialised_manager_panics:
  assumes gkm: "getKeyspaceMetadata m = None" and guard: "passesGuard c m"
  shows "(\<exists>p. fst (step e c m) = Panic p) \<and>
         getMetadataReadOnly (snd (step e c m)) = getMetadataReadOnly m \<and>
         (isKeyspaceChanged c \<longrightarrow> fst (step e c m) = Panic PanicNilGetKeyspaceMetadata) \<and>
         (\<not> isKeyspaceChanged c \<and> getKeyspaceName m = None \<longrightarrow>
            (fst (step e c m) = Panic PanicNilGetKeyspaceName \<or>
             fst (step e c m) = Panic PanicNilLogger) \<and>
            mapNext (snd (step e c m)) = mapNext m) \<and>
         (\<not> isKeyspaceChanged c \<and> getKeyspaceName m \<noteq> None \<and>
          fst (step e c m) \<noteq> Panic PanicNilLogger \<longrightarrow>
            fst (step e c m) = Panic PanicNilGetKeyspaceMetadata)"
proof (cases "isKeyspaceChanged c")
  case True
  then obtain k where c: "c = KeyspaceChanged k" by (cases c) auto
  from keyspaceChanged_uninitialised [OF gkm, of e k] c show ?thesis by simp
next
  case False
  from step_is_rebuild [OF guard False, of e] obtain m0
    where same: "sameButRegistry m m0" and st: "step e c m = rebuildAndStore e m0" by blast
  from same have eq: "m0 = m\<lparr>hosts := hosts m0, partitioner := partitioner m0\<rparr>"
    by (simp add: sameButRegistry_def)
  have mn: "mapNext m0 = mapNext m" by (subst eq) simp
  note f = sameButRegistry_fields [OF same]
  have gkm0: "getKeyspaceMetadata m0 = None" using gkm f by simp
  from rebuildAndStore_uninitialised [OF gkm0, of e] False show ?thesis
    by (simp add: st f mn)
qed

theorem uninitialised_manager_panics_witness:
  "getKeyspaceMetadata newManager = None \<and> getKeyspaceName newManager = None \<and>
   passesGuard (KeyspaceChanged ''ks1'') newManager \<and>
   fst (step exampleEnv (KeyspaceChanged ''ks1'') newManager) =
     Panic PanicNilGetKeyspaceMetadata \<and>
   getMetadataReadOnly (snd (step exampleEnv (KeyspaceChanged ''ks1'') newManager)) = None \<and>
   passesGuard (SetPartitioner ''Murmur3'') newManager \<and>
   fst (step exampleEnv (SetPartitioner ''Murmur3'') newManager) = Panic PanicNilLogger \<and>
   passesGuard (AddHosts []) newManager \<and>
   fst (step exampleEnv (AddHosts []) newManager) = Panic PanicNilGetKeyspaceName \<and>
   mapNext (snd (step exampleEnv (AddHosts []) newManager)) = 0 \<and>
   getMetadataReadOnly (snd (step exampleEnv (AddHosts []) newManager)) = None"
proof -
  have gkm: "getKeyspaceMetadata newManager = None" by (simp add: newManager_def)
  have gkn: "getKeyspaceName newManager = None" by (simp add: newManager_def)
  have g1: "passesGuard (KeyspaceChanged ''ks1'') newManager" by simp
  have g2: "passesGuard (SetPartitioner ''Murmur3'') newManager" by (simp add: newManager_def)
  have g3: "passesGuard (AddHosts []) newManager" by simp
  have l2: "fst (step exampleEnv (SetPartitioner ''Murmur3'') newManager) = Panic PanicNilLogger"
    by (simp add: model_defs example_defs)
  have l3: "fst (step exampleEnv (AddHosts []) newManager) \<noteq> Panic PanicNilLogger"
    by (simp add: model_defs example_defs)
  have mn: "mapNext newManager = 0" "getMetadataReadOnly newManager = None"
    by (simp_all add: newManager_def getMetadataReadOnly_def)
  from uninitialised_manager_panics [OF gkm g1, of exampleEnv]
    uninitialised_manager_panics [OF gkm g3, of exampleEnv]
    gkm gkn g1 g2 g3 l2 l3 mn
  show ?thesis by simp
qed

end
